theory Spec2Isabelle
  imports Complex_Main
begin

section \<open>Tensors, errors and the library operations the sources call\<close>

text \<open>
  A contiguous tensor is its shape and its elements in row-major order. Every exception
  a call can raise is a value of \<open>error\<close>; a fallible operation returns
  \<open>error + 'a\<close> with \<open>Inl\<close> for the exception.
\<close>

datatype error =
    AssertionError
  | ZeroDivisionError
  | RuntimeError
  | ValueError
  | TypeError
  | IndexError

record 'a tensor =
  shape :: "nat list"
  data :: "'a list"

definition numel :: "'a tensor \<Rightarrow> nat" where
  "numel t = prod_list (shape t)"

definition well_formed :: "'a tensor \<Rightarrow> bool" where
  "well_formed t = (length (data t) = prod_list (shape t))"

text \<open>\<open>rows c n xs\<close>: the flat list \<open>xs\<close> read as \<open>c\<close> consecutive rows of width \<open>n\<close>.\<close>

definition rows :: "nat \<Rightarrow> nat \<Rightarrow> 'a list \<Rightarrow> 'a list list" where
  "rows c n xs = map (\<lambda>i. take n (drop (i * n) xs)) [0..<c]"

text \<open>\<open>torch.tensor([[v]], dtype=torch.long)\<close>: a Python integer outside the signed
  64-bit range raises.\<close>

definition long_tensor_1x1 :: "int \<Rightarrow> error + int tensor" where
  "long_tensor_1x1 v =
     (if - (2 ^ 63) \<le> v \<and> v < 2 ^ 63 then Inr \<lparr>shape = [1, 1], data = [v]\<rparr>
      else Inl RuntimeError)"

text \<open>\<open>t[:, -1, :]\<close> on a three-dimensional tensor: the last position of every batch
  row. Fewer than three dimensions, or an empty middle dimension, raise IndexError.\<close>

definition select_last :: "'a tensor \<Rightarrow> error + 'a tensor" where
  "select_last t =
     (case shape t of
        [B, T, V] \<Rightarrow>
          if T = 0 then Inl IndexError
          else Inr \<lparr>shape = [B, V],
                    data = concat (map (\<lambda>b. take V (drop ((b * T + (T - 1)) * V) (data t))) [0..<B])\<rparr>
      | _ \<Rightarrow> Inl IndexError)"

text \<open>\<open>torch.softmax(t, dim=-1)\<close> on a two-dimensional tensor.\<close>

definition softmax_row :: "real list \<Rightarrow> real list" where
  "softmax_row xs = map (\<lambda>x. exp x / sum_list (map exp xs)) xs"

definition softmax_last :: "real tensor \<Rightarrow> error + real tensor" where
  "softmax_last t =
     (case shape t of
        [B, V] \<Rightarrow> Inr \<lparr>shape = [B, V], data = concat (map softmax_row (rows B V (data t)))\<rparr>
      | _ \<Rightarrow> Inl IndexError)"

text \<open>
  The random source is the stream of uniform draws from \<open>[0, 1)\<close> that the seeded
  generator yields, with the number of draws already consumed. Seeding fixes the stream.
  \<open>torch.multinomial(prob, num_samples=1)\<close> draws, for every row, the index whose
  cumulative interval holds the row's draw; it raises on an empty, negative or all-zero
  row and on a tensor that is not two-dimensional.
\<close>

type_synonym rng = "nat \<Rightarrow> real"

fun inv_cdf :: "real list \<Rightarrow> real \<Rightarrow> nat" where
  "inv_cdf [] u = 0"
| "inv_cdf [p] u = 0"
| "inv_cdf (p # ps) u = (if u < p then 0 else Suc (inv_cdf ps (u - p)))"

definition valid_distribution :: "real list \<Rightarrow> bool" where
  "valid_distribution ps = (ps \<noteq> [] \<and> list_all (\<lambda>p. 0 \<le> p) ps \<and> 0 < sum_list ps)"

definition multinomial :: "real tensor \<Rightarrow> rng \<Rightarrow> nat \<Rightarrow> error + (int tensor \<times> nat)" where
  "multinomial prob us pos =
     (case shape prob of
        [B, V] \<Rightarrow>
          if list_all valid_distribution (rows B V (data prob))
          then Inr (\<lparr>shape = [B, 1],
                     data = map (\<lambda>b. int (inv_cdf (rows B V (data prob) ! b) (us (pos + b)))) [0..<B]\<rparr>,
                    pos + B)
          else Inl RuntimeError
      | _ \<Rightarrow> Inl RuntimeError)"

text \<open>\<open>torch.cat([a, b], dim=-1)\<close> on two-dimensional tensors: the row counts must agree.\<close>

definition cat_last :: "'a tensor \<Rightarrow> 'a tensor \<Rightarrow> error + 'a tensor" where
  "cat_last a b =
     (case (shape a, shape b) of
        ([Ba, Ta], [Bb, Tb]) \<Rightarrow>
          if Ba = Bb
          then Inr \<lparr>shape = [Ba, Ta + Tb],
                    data = concat (map (\<lambda>i. rows Ba Ta (data a) ! i @ rows Bb Tb (data b) ! i) [0..<Ba])\<rparr>
          else Inl RuntimeError
      | _ \<Rightarrow> Inl RuntimeError)"

text \<open>\<open>t.item()\<close>: only a one-element tensor converts to a Python scalar.\<close>

definition item :: "'a tensor \<Rightarrow> error + 'a" where
  "item t = (case data t of [v] \<Rightarrow> Inr v | _ \<Rightarrow> Inl RuntimeError)"

section \<open>Modules and evaluation mode\<close>

text \<open>
  An \<open>nn.Module\<close> is its training flag, its own parameters and buffers, and its child
  modules. \<open>eval()\<close> is \<open>train(False)\<close>: it clears the flag of the module and,
  recursively, of every child, and touches nothing else.
\<close>

datatype module = Module (training: bool) (parameters: "real tensor list") (children: "module list")

fun eval_mode :: "module \<Rightarrow> module" where
  "eval_mode (Module t ps cs) = Module False ps (map eval_mode cs)"

fun all_modules :: "module \<Rightarrow> module list" where
  "all_modules (Module t ps cs) = Module t ps cs # concat (map all_modules cs)"

fun all_parameters :: "module \<Rightarrow> real tensor list" where
  "all_parameters (Module t ps cs) = ps @ concat (map all_parameters cs)"

section \<open>Transformer (src/transformer/transformer.py)\<close>

text \<open>
  The sub-modules of \<open>enc_block\<close> and \<open>dec_block\<close> (embedding with positional
  encoding, encoder, decoder, generator) are defined in files that are not part of the
  sources at hand. Their forward passes are parameters: functions of the module state
  (the parameters and training flags they read) and of their arguments, which may raise.
\<close>

record forward_fns =
  enc_p_emb :: "module \<Rightarrow> int tensor \<Rightarrow> error + real tensor"
  encoder :: "module \<Rightarrow> real tensor \<Rightarrow> bool tensor option \<Rightarrow> error + real tensor"
  dec_p_emb :: "module \<Rightarrow> int tensor \<Rightarrow> error + real tensor"
  decoder :: "module \<Rightarrow> real tensor \<Rightarrow> real tensor \<Rightarrow> bool tensor option \<Rightarrow> bool tensor option
                \<Rightarrow> error + real tensor"
  gen :: "module \<Rightarrow> real tensor \<Rightarrow> error + real tensor"

definition encode :: "forward_fns \<Rightarrow> module \<Rightarrow> int tensor \<Rightarrow> bool tensor option \<Rightarrow> error + real tensor" where
  "encode F self src msk =
     (case enc_p_emb F self src of
        Inl e \<Rightarrow> Inl e
      | Inr we \<Rightarrow> encoder F self we msk)"

definition decode :: "forward_fns \<Rightarrow> module \<Rightarrow> real tensor \<Rightarrow> bool tensor option \<Rightarrow> int tensor
    \<Rightarrow> bool tensor option \<Rightarrow> error + real tensor" where
  "decode F self memory memory_mask tgt msk =
     (case dec_p_emb F self tgt of
        Inl e \<Rightarrow> Inl e
      | Inr we \<Rightarrow> decoder F self we memory msk memory_mask)"

definition forward :: "forward_fns \<Rightarrow> module \<Rightarrow> int tensor \<Rightarrow> int tensor \<Rightarrow> bool tensor option
    \<Rightarrow> bool tensor option \<Rightarrow> error + real tensor" where
  "forward F self src tgt src_mask tgt_mask =
     (case encode F self src src_mask of
        Inl e \<Rightarrow> Inl e
      | Inr enc_out \<Rightarrow>
          (case decode F self enc_out src_mask tgt tgt_mask of
             Inl e \<Rightarrow> Inl e
           | Inr dec_out \<Rightarrow> gen F self dec_out))"

text \<open>
  The state of the generation loop: the growing sequence, the position in the random
  stream, the number of loop iterations entered, and the exception that ended the loop,
  if one did.
\<close>

record loop_state =
  generated_tokens :: "int tensor"
  rng_pos :: nat
  iterations :: nat
  raised :: "error option"

text \<open>One pass through the loop body, up to and including \<open>torch.cat\<close> and
  \<open>item()\<close>: the new sequence, the new stream position and the sampled id.\<close>

definition generate_step :: "forward_fns \<Rightarrow> module \<Rightarrow> real tensor \<Rightarrow> rng \<Rightarrow> int tensor \<Rightarrow> nat
    \<Rightarrow> error + (int tensor \<times> nat \<times> int)" where
  "generate_step F self enc_mem us toks pos =
     (case decode F self enc_mem None toks None of
        Inl e \<Rightarrow> Inl e
      | Inr dec_out \<Rightarrow>
     (case gen F self dec_out of
        Inl e \<Rightarrow> Inl e
      | Inr logits \<Rightarrow>
     (case select_last logits of
        Inl e \<Rightarrow> Inl e
      | Inr last_logits \<Rightarrow>
     (case softmax_last last_logits of
        Inl e \<Rightarrow> Inl e
      | Inr prob \<Rightarrow>
     (case multinomial prob us pos of
        Inl e \<Rightarrow> Inl e
      | Inr (sampled_token, pos') \<Rightarrow>
     (case cat_last toks sampled_token of
        Inl e \<Rightarrow> Inl e
      | Inr toks' \<Rightarrow>
     (case item sampled_token of
        Inl e \<Rightarrow> Inl e
      | Inr tok \<Rightarrow> Inr (toks', pos', tok))))))))"

text \<open>\<open>for _ in range(max_new_tokens)\<close>: the first argument counts the iterations
  that remain.\<close>

fun generate_loop :: "nat \<Rightarrow> forward_fns \<Rightarrow> module \<Rightarrow> real tensor \<Rightarrow> int \<Rightarrow> rng \<Rightarrow> loop_state
    \<Rightarrow> loop_state" where
  "generate_loop 0 F self enc_mem end_token_idx us st = st"
| "generate_loop (Suc n) F self enc_mem end_token_idx us st =
     (case generate_step F self enc_mem us (generated_tokens st) (rng_pos st) of
        Inl e \<Rightarrow> st\<lparr>iterations := Suc (iterations st), raised := Some e\<rparr>
      | Inr (toks', pos', tok) \<Rightarrow>
          let st' = st\<lparr>generated_tokens := toks', rng_pos := pos', iterations := Suc (iterations st)\<rparr>
          in if tok = end_token_idx then st'
             else generate_loop n F self enc_mem end_token_idx us st')"

text \<open>What a call of \<open>generate\<close> leaves behind: the value returned or the exception
  raised, the module after the call, the random stream position, and the number of loop
  iterations entered.\<close>

record outcome =
  returned :: "error + int tensor"
  model_after :: module
  rng_after :: nat
  steps :: nat

definition generate :: "forward_fns \<Rightarrow> module \<Rightarrow> int tensor \<Rightarrow> int \<Rightarrow> int \<Rightarrow> int \<Rightarrow> rng \<Rightarrow> nat
    \<Rightarrow> outcome" where
  "generate F self input max_new_tokens start_token_idx end_token_idx us pos =
     (let self' = eval_mode self in
      case encode F self' input None of
        Inl e \<Rightarrow> \<lparr>returned = Inl e, model_after = self', rng_after = pos, steps = 0\<rparr>
      | Inr enc_mem \<Rightarrow>
          (case long_tensor_1x1 start_token_idx of
             Inl e \<Rightarrow> \<lparr>returned = Inl e, model_after = self', rng_after = pos, steps = 0\<rparr>
           | Inr start \<Rightarrow>
               let st = generate_loop (nat max_new_tokens) F self' enc_mem end_token_idx us
                          \<lparr>generated_tokens = start, rng_pos = pos, iterations = 0, raised = None\<rparr>
               in \<lparr>returned = (case raised st of Some e \<Rightarrow> Inl e | None \<Rightarrow> Inr (generated_tokens st)),
                   model_after = self', rng_after = rng_pos st, steps = iterations st\<rparr>))"

section \<open>Tensor operations of the attention layers\<close>

text \<open>\<open>block n i xs\<close>: row \<open>i\<close> of the flat list \<open>xs\<close> read in rows of width \<open>n\<close>.\<close>

definition block :: "nat \<Rightarrow> nat \<Rightarrow> 'a list \<Rightarrow> 'a list" where
  "block n i xs = take n (drop (i * n) xs)"

text \<open>
  \<open>t.view(dims)\<close> keeps the elements and changes the shape. The sizes are Python
  integers: one of them may be \<open>-1\<close> and is then inferred, any other negative size
  raises, and so does a shape whose number of elements differs from the tensor's.
\<close>

definition view :: "'a tensor \<Rightarrow> int list \<Rightarrow> error + 'a tensor" where
  "view t dims =
     (if list_all (\<lambda>d. 0 \<le> d) dims
      then if prod_list (map nat dims) = numel t
           then Inr \<lparr>shape = map nat dims, data = data t\<rparr>
           else Inl RuntimeError
      else if filter (\<lambda>d. d < 0) dims = [- 1]
      then let known = prod_list (map nat (filter (\<lambda>d. 0 \<le> d) dims))
           in if known \<noteq> 0 \<and> numel t mod known = 0
              then Inr \<lparr>shape = map (\<lambda>d. if d < 0 then numel t div known else nat d) dims,
                        data = data t\<rparr>
              else Inl RuntimeError
      else Inl RuntimeError)"

text \<open>\<open>t.transpose(1, 2)\<close> followed by reading the elements in the new order; with
  fewer than three dimensions it raises.\<close>

definition transpose12 :: "'a tensor \<Rightarrow> error + 'a tensor" where
  "transpose12 t =
     (case shape t of
        B # S1 # S2 # rest \<Rightarrow>
          Inr \<lparr>shape = B # S2 # S1 # rest,
               data = concat (map (\<lambda>b. concat (map (\<lambda>j. concat (map (\<lambda>i.
                        block (prod_list rest) ((b * S1 + i) * S2 + j) (data t))
                      [0..<S1])) [0..<S2])) [0..<B])\<rparr>
      | _ \<Rightarrow> Inl IndexError)"

text \<open>\<open>contiguous()\<close> changes the memory layout only; the elements of a tensor are
  already kept in their logical order here.\<close>

definition contiguous :: "'a tensor \<Rightarrow> 'a tensor" where
  "contiguous t = t"

text \<open>\<open>mask.unsqueeze(1)\<close> inserts a dimension of size 1 after the first one.\<close>

definition unsqueeze1 :: "'a tensor \<Rightarrow> error + 'a tensor" where
  "unsqueeze1 t =
     (case shape t of
        [] \<Rightarrow> Inl IndexError
      | B # rest \<Rightarrow> Inr \<lparr>shape = B # 1 # rest, data = data t\<rparr>)"

text \<open>
  \<open>t.split(split_size, dim=2)\<close> on a three-dimensional tensor: consecutive chunks of
  width \<open>split_size\<close> along the last dimension, the last chunk holding what remains.
  A negative size raises; size 0 is accepted for an empty dimension only and gives one
  chunk.
\<close>

definition split_dim2 :: "'a tensor \<Rightarrow> int \<Rightarrow> error + 'a tensor list" where
  "split_dim2 t split_size =
     (case shape t of
        [B, S, F] \<Rightarrow>
          if split_size < 0 \<or> (split_size = 0 \<and> F \<noteq> 0) then Inl RuntimeError
          else if split_size = 0 then Inr [t]
          else let w = nat split_size; n = max ((F + w - 1) div w) 1
               in Inr (map (\<lambda>c. \<lparr>shape = [B, S, min w (F - c * w)],
                                  data = concat (map (\<lambda>r. take w (drop (c * w) r))
                                                  (rows (B * S) F (data t)))\<rparr>) [0..<n])
      | _ \<Rightarrow> Inl IndexError)"

text \<open>\<open>nn.Linear\<close>: the weight has one row per output feature. The forward pass maps
  every row of the input (its last dimension) to \<open>W row + b\<close>, and raises when the last
  dimension is not \<open>in_features\<close>.\<close>

record linear =
  in_features :: nat
  out_features :: nat
  weight :: "real list list"
  bias :: "real list"

definition dot :: "real list \<Rightarrow> real list \<Rightarrow> real" where
  "dot xs ys = sum_list (map2 (*) xs ys)"

definition affine :: "linear \<Rightarrow> real list \<Rightarrow> real list" where
  "affine L r = map (\<lambda>out. dot (weight L ! out) r + bias L ! out) [0..<out_features L]"

definition linear_forward :: "linear \<Rightarrow> real tensor \<Rightarrow> error + real tensor" where
  "linear_forward L x =
     (if shape x = [] \<or> last (shape x) \<noteq> in_features L then Inl RuntimeError
      else Inr \<lparr>shape = butlast (shape x) @ [out_features L],
                data = concat (map (affine L)
                         (rows (prod_list (butlast (shape x))) (in_features L) (data x)))\<rparr>)"

text \<open>
  Creating \<open>nn.Linear(i, o)\<close> allocates the weight and the bias and fills them with
  initial values, here the next values of the stream \<open>ws\<close> from offset \<open>off\<close>. A
  negative size raises. The result comes with the shapes of the tensors created.
\<close>

definition nn_Linear :: "int \<Rightarrow> int \<Rightarrow> (nat \<Rightarrow> real) \<Rightarrow> nat \<Rightarrow> (error + linear) \<times> nat list list" where
  "nn_Linear i out ws off =
     (if i < 0 \<or> out < 0 then (Inl RuntimeError, [])
      else (Inr \<lparr>in_features = nat i, out_features = nat out,
                  weight = map (\<lambda>r. map (\<lambda>c. ws (off + r * nat i + c)) [0..<nat i]) [0..<nat out],
                  bias = map (\<lambda>r. ws (off + nat out * nat i + r)) [0..<nat out]\<rparr>,
            [[nat out, nat i], [nat out]]))"

text \<open>
  Dropout with rate \<open>p\<close>: in training mode an element is kept and scaled by
  \<open>1 / (1 - p)\<close> or set to zero, as the element's random decision \<open>keep\<close> says; in
  evaluation mode, and with rate 0, it is the identity.
\<close>

definition dropout_elem :: "real \<Rightarrow> bool \<Rightarrow> bool \<Rightarrow> real \<Rightarrow> real" where
  "dropout_elem p train kp v =
     (if train \<and> p \<noteq> 0 then (if kp \<and> p < 1 then v / (1 - p) else 0) else v)"

definition nn_Dropout :: "real \<Rightarrow> bool \<Rightarrow> (nat \<Rightarrow> bool) \<Rightarrow> real tensor \<Rightarrow> real tensor" where
  "nn_Dropout p train keep t =
     \<lparr>shape = shape t, data = map (\<lambda>n. dropout_elem p train (keep n) (data t ! n)) [0..<length (data t)]\<rparr>"

section \<open>ScaledDotProductAttention\<close>

text \<open>
  Modelled from the spec: the class \<open>ScaledDotProductAttention\<close> (module
  \<open>scaled_dp_attn\<close>), which \<open>MultiHeadAttention\<close> imports and calls; its file is not
  among the sources. Section 4.1 of the specification: for query, key and value of
  matching head dimension and an optional mask, the output is
  \<open>softmax(Q K\<^sup>T / sqrt(d_k), masked) V\<close>; a masked score is set to minus infinity before
  normalisation and so gets probability zero; dropout is applied to the attention
  weights, in training only. Section 3: the mask has the shape (batch, 1-or-heads,
  query length, key length), a true entry permits attending, and a mask that does not
  broadcast against the scores is an error.

  A score is \<open>Some s\<close>, or \<open>None\<close> for minus infinity. A row whose scores are all masked
  has no normalisation (the floating-point result is not a number); the reals have no
  such value, and the division by zero gives weight 0 here.
\<close>

fun expo :: "real option \<Rightarrow> real" where
  "expo None = 0"
| "expo (Some s) = exp s"

definition masked_softmax :: "real option list \<Rightarrow> real list" where
  "masked_softmax ss = map (\<lambda>s. expo s / sum_list (map expo ss)) ss"

definition broadcasts :: "nat list \<Rightarrow> nat list \<Rightarrow> bool" where
  "broadcasts ms ts = (length ms = length ts \<and> list_all (\<lambda>(m, t). m = 1 \<or> m = t) (zip ms ts))"

text \<open>The element of a four-dimensional mask that broadcasting puts at \<open>(b, h, i, j)\<close>.\<close>

definition mask_at :: "bool tensor \<Rightarrow> nat \<Rightarrow> nat \<Rightarrow> nat \<Rightarrow> nat \<Rightarrow> bool" where
  "mask_at m b h i j =
     (case shape m of
        [Bm, Hm, Qm, Km] \<Rightarrow>
          data m ! ((((if Bm = 1 then 0 else b) * Hm + (if Hm = 1 then 0 else h)) * Qm
                      + (if Qm = 1 then 0 else i)) * Km + (if Km = 1 then 0 else j))
      | _ \<Rightarrow> True)"

definition permitted :: "bool tensor option \<Rightarrow> nat \<Rightarrow> nat \<Rightarrow> nat \<Rightarrow> nat \<Rightarrow> bool" where
  "permitted msk b h i j = (case msk of None \<Rightarrow> True | Some m \<Rightarrow> mask_at m b h i j)"

text \<open>The attention weights of query \<open>i\<close> in head \<open>h\<close> of batch row \<open>b\<close>, after dropout,
  and the output row they give.\<close>

definition attention_weights :: "real \<Rightarrow> bool \<Rightarrow> (nat \<Rightarrow> bool) \<Rightarrow> real tensor \<Rightarrow> real tensor
    \<Rightarrow> bool tensor option \<Rightarrow> nat \<Rightarrow> nat \<Rightarrow> nat \<Rightarrow> real list" where
  "attention_weights p train keep q k msk b h i =
     (case (shape q, shape k) of
        ([B, H, Sq, D], [Bk, Hk, Sk, Dk]) \<Rightarrow>
          map (\<lambda>j. dropout_elem p train (keep ((((b * H + h) * Sq + i) * Sk) + j))
                     (masked_softmax
                        (map (\<lambda>j. if permitted msk b h i j
                                   then Some (dot (block D ((b * H + h) * Sq + i) (data q))
                                                  (block D ((b * H + h) * Sk + j) (data k))
                                              / sqrt (real D))
                                   else None) [0..<Sk]) ! j)) [0..<Sk]
      | _ \<Rightarrow> [])"

definition attention_row :: "real list \<Rightarrow> real tensor \<Rightarrow> nat \<Rightarrow> nat \<Rightarrow> real list" where
  "attention_row w v b h =
     (case shape v of
        [B, H, Sk, Dv] \<Rightarrow>
          map (\<lambda>c. sum_list (map (\<lambda>j. w ! j * block Dv ((b * H + h) * Sk + j) (data v) ! c) [0..<Sk]))
            [0..<Dv]
      | _ \<Rightarrow> [])"

definition ScaledDotProductAttention_forward :: "real \<Rightarrow> bool \<Rightarrow> (nat \<Rightarrow> bool) \<Rightarrow> real tensor
    \<Rightarrow> real tensor \<Rightarrow> real tensor \<Rightarrow> bool tensor option \<Rightarrow> error + real tensor" where
  "ScaledDotProductAttention_forward p train keep q k v msk =
     (case (shape q, shape k, shape v) of
        ([B, H, Sq, D], [Bk, Hk, Sk, Dk], [Bv, Hv, Sv, Dv]) \<Rightarrow>
          if (Bk, Hk, Dk) \<noteq> (B, H, D) \<or> (Bv, Hv, Sv) \<noteq> (B, H, Sk) then Inl RuntimeError
          else if (case msk of None \<Rightarrow> False | Some m \<Rightarrow> \<not> broadcasts (shape m) [B, H, Sq, Sk])
          then Inl RuntimeError
          else Inr \<lparr>shape = [B, H, Sq, Dv],
                    data = concat (map (\<lambda>b. concat (map (\<lambda>h. concat (map (\<lambda>i.
                             attention_row (attention_weights p train keep q k msk b h i) v b h)
                           [0..<Sq])) [0..<H])) [0..<B])\<rparr>
      | _ \<Rightarrow> Inl RuntimeError)"

section \<open>MultiHeadAttention (src/transformer/attention.py)\<close>

text \<open>
  The module holds the two linear layers, the head count and the model width as the
  Python integers given to the constructor, the dropout rate handed to the attention
  primitive, and the training flag.
\<close>

record MultiHeadAttention =
  c_attn :: linear
  c_proj :: linear
  n_head :: int
  d_model :: int
  dropout :: real
  in_training :: bool

text \<open>
  The constructor. \<open>d_model % n_head\<close> raises for a zero head count; the assertion
  comes before the first layer is created. The second component lists the shapes of
  the tensors created before the constructor returned or raised.
\<close>

definition MultiHeadAttention_init :: "int \<Rightarrow> int \<Rightarrow> real \<Rightarrow> (nat \<Rightarrow> real)
    \<Rightarrow> (error + MultiHeadAttention) \<times> nat list list" where
  "MultiHeadAttention_init dm nh p ws =
     (if nh = 0 then (Inl ZeroDivisionError, [])
      else if dm mod nh \<noteq> 0 then (Inl AssertionError, [])
      else case nn_Linear dm (3 * dm) ws 0 of
        (Inl e, created) \<Rightarrow> (Inl e, created)
      | (Inr attn_layer, created) \<Rightarrow>
          (case nn_Linear dm dm ws (nat (3 * dm) * nat dm + nat (3 * dm)) of
             (Inl e, created') \<Rightarrow> (Inl e, created @ created')
           | (Inr proj_layer, created') \<Rightarrow>
               (Inr \<lparr>c_attn = attn_layer, c_proj = proj_layer, n_head = nh, d_model = dm,
                     dropout = p, in_training = True\<rparr>,
                created @ created')))"

text \<open>The three tensors \<open>q, k, v\<close>: the arguments given after \<open>x\<close>, or the three chunks
  of the combined projection. Unpacking anything but three values raises.\<close>

definition unpack3 :: "'a list \<Rightarrow> error + ('a \<times> 'a \<times> 'a)" where
  "unpack3 xs = (case xs of [a, b, c] \<Rightarrow> Inr (a, b, c) | _ \<Rightarrow> Inl ValueError)"

definition project_qkv :: "MultiHeadAttention \<Rightarrow> real tensor \<Rightarrow> real tensor list
    \<Rightarrow> error + (real tensor \<times> real tensor \<times> real tensor)" where
  "project_qkv self x qkv =
     (if qkv \<noteq> [] then unpack3 qkv
      else case linear_forward (c_attn self) x of
             Inl e \<Rightarrow> Inl e
           | Inr projected \<Rightarrow>
               (case split_dim2 projected (d_model self) of
                  Inl e \<Rightarrow> Inl e
                | Inr chunks \<Rightarrow> unpack3 chunks))"

text \<open>\<open>t.view(B, S, n_head, E // n_head).transpose(1, 2)\<close>; the floor division raises
  for a zero head count.\<close>

definition split_heads :: "MultiHeadAttention \<Rightarrow> nat \<Rightarrow> nat \<Rightarrow> nat \<Rightarrow> real tensor \<Rightarrow> error + real tensor" where
  "split_heads self B S E t =
     (if n_head self = 0 then Inl ZeroDivisionError
      else case view t [int B, int S, n_head self, int E div n_head self] of
             Inl e \<Rightarrow> Inl e
           | Inr t4 \<Rightarrow> transpose12 t4)"

definition MultiHeadAttention_forward :: "MultiHeadAttention \<Rightarrow> (nat \<Rightarrow> bool) \<Rightarrow> real tensor
    \<Rightarrow> real tensor list \<Rightarrow> bool tensor option \<Rightarrow> error + real tensor" where
  "MultiHeadAttention_forward self keep x qkv msk =
     (case shape x of
        [B, S, E] \<Rightarrow>
          (case project_qkv self x qkv of
             Inl e \<Rightarrow> Inl e
           | Inr (q, k, v) \<Rightarrow>
          (case split_heads self B S E q of
             Inl e \<Rightarrow> Inl e
           | Inr q4 \<Rightarrow>
          (case split_heads self B S E k of
             Inl e \<Rightarrow> Inl e
           | Inr k4 \<Rightarrow>
          (case split_heads self B S E v of
             Inl e \<Rightarrow> Inl e
           | Inr v4 \<Rightarrow>
          (case (case msk of None \<Rightarrow> Inr None
                 | Some m \<Rightarrow> (case unsqueeze1 m of Inl e \<Rightarrow> Inl e | Inr m4 \<Rightarrow> Inr (Some m4))) of
             Inl e \<Rightarrow> Inl e
           | Inr msk4 \<Rightarrow>
          (case ScaledDotProductAttention_forward (dropout self) (in_training self) keep q4 k4 v4 msk4 of
             Inl e \<Rightarrow> Inl e
           | Inr y4 \<Rightarrow>
          (case transpose12 y4 of
             Inl e \<Rightarrow> Inl e
           | Inr yt \<Rightarrow>
          (case view (contiguous yt) [int B, int S, int E] of
             Inl e \<Rightarrow> Inl e
           | Inr y \<Rightarrow> linear_forward (c_proj self) y))))))))
      | _ \<Rightarrow> Inl ValueError)"

text \<open>The tensor \<open>y\<close> of the forward pass after the heads are concatenated (lines 43 to
  60 of the file), before the final projection is applied.\<close>

definition concatenated_heads :: "MultiHeadAttention \<Rightarrow> (nat \<Rightarrow> bool) \<Rightarrow> real tensor
    \<Rightarrow> real tensor list \<Rightarrow> bool tensor option \<Rightarrow> error + real tensor" where
  "concatenated_heads self keep x qkv msk =
     (case shape x of
        [B, S, E] \<Rightarrow>
          (case project_qkv self x qkv of
             Inl e \<Rightarrow> Inl e
           | Inr (q, k, v) \<Rightarrow>
          (case split_heads self B S E q of
             Inl e \<Rightarrow> Inl e
           | Inr q4 \<Rightarrow>
          (case split_heads self B S E k of
             Inl e \<Rightarrow> Inl e
           | Inr k4 \<Rightarrow>
          (case split_heads self B S E v of
             Inl e \<Rightarrow> Inl e
           | Inr v4 \<Rightarrow>
          (case (case msk of None \<Rightarrow> Inr None
                 | Some m \<Rightarrow> (case unsqueeze1 m of Inl e \<Rightarrow> Inl e | Inr m4 \<Rightarrow> Inr (Some m4))) of
             Inl e \<Rightarrow> Inl e
           | Inr msk4 \<Rightarrow>
          (case ScaledDotProductAttention_forward (dropout self) (in_training self) keep q4 k4 v4 msk4 of
             Inl e \<Rightarrow> Inl e
           | Inr y4 \<Rightarrow>
          (case transpose12 y4 of
             Inl e \<Rightarrow> Inl e
           | Inr yt \<Rightarrow> view (contiguous yt) [int B, int S, int E])))))))
      | _ \<Rightarrow> Inl ValueError)"

section \<open>MultiHeadAttention (src/transformer/common/attention.py)\<close>

text \<open>
  The second class of the same name. Its constructor also creates
  \<open>nn.Dropout(dropout)\<close>, which raises for a rate outside \<open>[0, 1]\<close>.

  Its forward pass calls the library function
  \<open>F.scaled_dot_product_attention(query, key, value, attn_mask=None, dropout_p=0.0,
  is_causal=False, scale=None, enable_gqa=False)\<close> with the keywords \<open>dropout\<close> and
  \<open>is_causal\<close>. A call with a keyword that is not a parameter of the function raises
  TypeError before anything is computed; \<open>dropout\<close> is no parameter, so the call of
  this forward pass raises on every input. What the function computes on a well-formed
  call is the parameter \<open>sdpa\<close>.
\<close>

definition sdpa_parameters :: "string list" where
  "sdpa_parameters = [''query'', ''key'', ''value'', ''attn_mask'', ''dropout_p'', ''is_causal'',
     ''scale'', ''enable_gqa'']"

definition F_scaled_dot_product_attention ::
    "(real tensor \<Rightarrow> real tensor \<Rightarrow> real tensor \<Rightarrow> real \<Rightarrow> bool tensor option \<Rightarrow> error + real tensor)
     \<Rightarrow> string list \<Rightarrow> real tensor \<Rightarrow> real tensor \<Rightarrow> real tensor \<Rightarrow> real \<Rightarrow> bool tensor option
     \<Rightarrow> error + real tensor" where
  "F_scaled_dot_product_attention sdpa keywords q k v p msk =
     (if list_all (\<lambda>kw. kw \<in> set sdpa_parameters) keywords then sdpa q k v p msk else Inl TypeError)"

definition Common_MultiHeadAttention_init :: "int \<Rightarrow> int \<Rightarrow> real \<Rightarrow> (nat \<Rightarrow> real)
    \<Rightarrow> (error + MultiHeadAttention) \<times> nat list list" where
  "Common_MultiHeadAttention_init dm nh p ws =
     (if nh = 0 then (Inl ZeroDivisionError, [])
      else if dm mod nh \<noteq> 0 then (Inl AssertionError, [])
      else case nn_Linear dm (3 * dm) ws 0 of
        (Inl e, created) \<Rightarrow> (Inl e, created)
      | (Inr attn_layer, created) \<Rightarrow>
          (case nn_Linear dm dm ws (nat (3 * dm) * nat dm + nat (3 * dm)) of
             (Inl e, created') \<Rightarrow> (Inl e, created @ created')
           | (Inr proj_layer, created') \<Rightarrow>
               if p < 0 \<or> 1 < p then (Inl ValueError, created @ created')
               else (Inr \<lparr>c_attn = attn_layer, c_proj = proj_layer, n_head = nh, d_model = dm,
                          dropout = p, in_training = True\<rparr>,
                     created @ created')))"

definition Common_MultiHeadAttention_forward ::
    "(real tensor \<Rightarrow> real tensor \<Rightarrow> real tensor \<Rightarrow> real \<Rightarrow> bool tensor option \<Rightarrow> error + real tensor)
     \<Rightarrow> MultiHeadAttention \<Rightarrow> (nat \<Rightarrow> bool) \<Rightarrow> real tensor \<Rightarrow> bool tensor option \<Rightarrow> error + real tensor" where
  "Common_MultiHeadAttention_forward sdpa self keep x msk =
     (case shape x of
        [B, S, E] \<Rightarrow>
          (case project_qkv self x [] of
             Inl e \<Rightarrow> Inl e
           | Inr (q, k, v) \<Rightarrow>
          (case split_heads self B S E q of
             Inl e \<Rightarrow> Inl e
           | Inr q4 \<Rightarrow>
          (case split_heads self B S E k of
             Inl e \<Rightarrow> Inl e
           | Inr k4 \<Rightarrow>
          (case split_heads self B S E v of
             Inl e \<Rightarrow> Inl e
           | Inr v4 \<Rightarrow>
          (case F_scaled_dot_product_attention sdpa [''dropout'', ''is_causal''] q4 k4 v4 (dropout self) msk of
             Inl e \<Rightarrow> Inl e
           | Inr y4 \<Rightarrow>
          (case transpose12 y4 of
             Inl e \<Rightarrow> Inl e
           | Inr yt \<Rightarrow>
          (case view (contiguous yt) [int B, int S, int E] of
             Inl e \<Rightarrow> Inl e
           | Inr y \<Rightarrow>
          (case linear_forward (c_proj self) y of
             Inl e \<Rightarrow> Inl e
           | Inr projected \<Rightarrow> Inr (nn_Dropout (dropout self) (in_training self) keep projected)))))))))
      | _ \<Rightarrow> Inl ValueError)"

section \<open>The constructor of the model (src/transformer/transformer.py)\<close>

text \<open>
  A constructor returns the object or the exception together with the shapes of the
  tensors created before it returned or raised. \<open>then_init\<close> runs a second
  constructor after a first one that returned, and stops at the first exception.
\<close>

definition then_init :: "(error + 'a) \<times> nat list list \<Rightarrow> ('a \<Rightarrow> (error + 'b) \<times> nat list list)
    \<Rightarrow> (error + 'b) \<times> nat list list" where
  "then_init r f =
     (case r of
        (Inl e, created) \<Rightarrow> (Inl e, created)
      | (Inr a, created) \<Rightarrow> (case f a of (r', created') \<Rightarrow> (r', created @ created')))"

text \<open>The configuration dataclass. The fields \<open>d_model\<close>, \<open>n_head\<close> and \<open>dropout\<close>
  carry a suffix here, since the attention module has fields of these names.\<close>

record TransformerConfig =
  d_model_cfg :: int
  n_stack :: int
  n_head_cfg :: int
  d_ffn_hidden :: int
  dropout_cfg :: real
  src_max_len :: int
  tgt_max_len :: int
  src_vocab_size :: int
  tgt_vocab_size :: int
  pad_idx :: int

text \<open>
  Modelled from the spec: the classes \<open>Embedding\<close>, \<open>Encoder\<close>, \<open>Decoder\<close> (with
  their blocks) and \<open>Generator\<close> and their constructors, whose files are not among the
  sources. Section 3 of the specification: the embedding table has one row per
  vocabulary id. Sections 4.3 and 4.4: an encoder block is a self-attention sublayer
  and a position-wise feed-forward sublayer of two linear transforms; a decoder block
  is a masked self-attention sublayer, a cross-attention sublayer and a feed-forward
  sublayer; encoder and decoder are \<open>n_stack\<close> such blocks. Section 4.5: the generator
  is a linear projection from the model width to the target vocabulary size. The
  attention sublayers are the \<open>MultiHeadAttention\<close> of \<open>attention.py\<close>. The
  specification does not say what \<open>PositionalEncoding\<close> and the normalisation hold:
  the constructor of \<open>PositionalEncoding\<close> is a parameter, and the tensors of the
  normalisation are left out. The stream \<open>ws\<close> gives the initial values.
\<close>

record Embedding =
  table :: "real tensor"
  padding_idx :: int

record FeedForward =
  linear1 :: linear
  linear2 :: linear

record EncoderBlock =
  attention :: MultiHeadAttention
  feed_forward :: FeedForward

record DecoderBlock =
  self_attention :: MultiHeadAttention
  cross_attention :: MultiHeadAttention
  ffn :: FeedForward

definition Embedding_init :: "int \<Rightarrow> int \<Rightarrow> int \<Rightarrow> (nat \<Rightarrow> real) \<Rightarrow> (error + Embedding) \<times> nat list list" where
  "Embedding_init vocab_size dm pad ws =
     (if vocab_size < 0 \<or> dm < 0 then (Inl RuntimeError, [])
      else (Inr \<lparr>table = \<lparr>shape = [nat vocab_size, nat dm], data = map ws [0..<nat vocab_size * nat dm]\<rparr>,
                  padding_idx = pad\<rparr>,
            [[nat vocab_size, nat dm]]))"

definition FeedForward_init :: "int \<Rightarrow> int \<Rightarrow> (nat \<Rightarrow> real) \<Rightarrow> (error + FeedForward) \<times> nat list list" where
  "FeedForward_init dm hidden ws =
     then_init (nn_Linear dm hidden ws 0) (\<lambda>l1.
     then_init (nn_Linear hidden dm ws (nat hidden * nat dm + nat hidden)) (\<lambda>l2.
       (Inr \<lparr>linear1 = l1, linear2 = l2\<rparr>, [])))"

definition EncoderBlock_init :: "int \<Rightarrow> int \<Rightarrow> int \<Rightarrow> real \<Rightarrow> (nat \<Rightarrow> real)
    \<Rightarrow> (error + EncoderBlock) \<times> nat list list" where
  "EncoderBlock_init dm nh hidden p ws =
     then_init (MultiHeadAttention_init dm nh p ws) (\<lambda>a.
     then_init (FeedForward_init dm hidden ws) (\<lambda>f.
       (Inr \<lparr>attention = a, feed_forward = f\<rparr>, [])))"

definition DecoderBlock_init :: "int \<Rightarrow> int \<Rightarrow> int \<Rightarrow> real \<Rightarrow> (nat \<Rightarrow> real)
    \<Rightarrow> (error + DecoderBlock) \<times> nat list list" where
  "DecoderBlock_init dm nh hidden p ws =
     then_init (MultiHeadAttention_init dm nh p ws) (\<lambda>a.
     then_init (MultiHeadAttention_init dm nh p ws) (\<lambda>c.
     then_init (FeedForward_init dm hidden ws) (\<lambda>f.
       (Inr \<lparr>self_attention = a, cross_attention = c, ffn = f\<rparr>, []))))"

text \<open>\<open>init_stack mk k n\<close>: the blocks number \<open>k\<close> to \<open>k + n - 1\<close>, constructed in
  this order.\<close>

fun init_stack :: "(nat \<Rightarrow> (error + 'a) \<times> nat list list) \<Rightarrow> nat \<Rightarrow> nat \<Rightarrow> (error + 'a list) \<times> nat list list" where
  "init_stack mk k 0 = (Inr [], [])"
| "init_stack mk k (Suc n) =
     then_init (mk k) (\<lambda>b.
     then_init (init_stack mk (Suc k) n) (\<lambda>bs.
       (Inr (b # bs), [])))"

definition Encoder_init :: "int \<Rightarrow> int \<Rightarrow> int \<Rightarrow> int \<Rightarrow> real \<Rightarrow> (nat \<Rightarrow> nat \<Rightarrow> real)
    \<Rightarrow> (error + EncoderBlock list) \<times> nat list list" where
  "Encoder_init dm stack nh hidden p wss =
     init_stack (\<lambda>k. EncoderBlock_init dm nh hidden p (wss k)) 0 (nat stack)"

definition Decoder_init :: "int \<Rightarrow> int \<Rightarrow> int \<Rightarrow> int \<Rightarrow> real \<Rightarrow> (nat \<Rightarrow> nat \<Rightarrow> real)
    \<Rightarrow> (error + DecoderBlock list) \<times> nat list list" where
  "Decoder_init dm stack nh hidden p wss =
     init_stack (\<lambda>k. DecoderBlock_init dm nh hidden p (wss k)) 0 (nat stack)"

definition Generator_init :: "int \<Rightarrow> int \<Rightarrow> (nat \<Rightarrow> real) \<Rightarrow> (error + linear) \<times> nat list list" where
  "Generator_init dm vocab_size ws = nn_Linear dm vocab_size ws 0"

text \<open>
  \<open>Transformer.__init__\<close>: the arguments of the two \<open>ModuleDict\<close>s are evaluated in
  the order written, the source embedding and positional encoding before the encoder,
  then the target embedding and positional encoding, the decoder and the generator.
\<close>

record 'p Transformer =
  config :: TransformerConfig
  enc_embedding :: Embedding
  enc_position :: 'p
  enc_stack :: "EncoderBlock list"
  dec_embedding :: Embedding
  dec_position :: 'p
  dec_stack :: "DecoderBlock list"
  generator :: linear

definition Transformer_init :: "(int \<Rightarrow> real \<Rightarrow> int \<Rightarrow> (error + 'p) \<times> nat list list) \<Rightarrow> TransformerConfig
    \<Rightarrow> (nat \<Rightarrow> nat \<Rightarrow> real) \<Rightarrow> (error + 'p Transformer) \<times> nat list list" where
  "Transformer_init PositionalEncoding_init c wss =
     then_init (Embedding_init (src_vocab_size c) (d_model_cfg c) (pad_idx c) (wss 0)) (\<lambda>e1.
     then_init (PositionalEncoding_init (d_model_cfg c) (dropout_cfg c) (src_max_len c)) (\<lambda>p1.
     then_init (Encoder_init (d_model_cfg c) (n_stack c) (n_head_cfg c) (d_ffn_hidden c) (dropout_cfg c)
                  (\<lambda>k. wss (2 * k + 3))) (\<lambda>enc.
     then_init (Embedding_init (tgt_vocab_size c) (d_model_cfg c) (pad_idx c) (wss 1)) (\<lambda>e2.
     then_init (PositionalEncoding_init (d_model_cfg c) (dropout_cfg c) (tgt_max_len c)) (\<lambda>p2.
     then_init (Decoder_init (d_model_cfg c) (n_stack c) (n_head_cfg c) (d_ffn_hidden c) (dropout_cfg c)
                  (\<lambda>k. wss (2 * k + 4))) (\<lambda>dec.
     then_init (Generator_init (d_model_cfg c) (tgt_vocab_size c) (wss 2)) (\<lambda>g.
       (Inr \<lparr>config = c, enc_embedding = e1, enc_position = p1, enc_stack = enc,
              dec_embedding = e2, dec_position = p2, dec_stack = dec, generator = g\<rparr>, []))))))))"

section \<open>The decoder\<close>

text \<open>
  Modelled from the spec: the forward pass of \<open>Decoder\<close> and its blocks, whose file is
  not among the sources. Section 4.4: each block is (a) self-attention over the
  target-side hidden state with the target mask, residual and normalise; (b)
  cross-attention where the query is the block's own hidden state and key and value
  are the encoder memory, with the memory mask, residual and normalise; (c) the
  feed-forward sublayer (section 4.3: two linear transforms with a nonlinearity
  between), residual and normalise; the blocks are applied one after the other. Both
  attention sublayers are calls of \<open>MultiHeadAttention.forward\<close> of \<open>attention.py\<close>,
  the cross-attention with the external query, key and value. The specification gives
  no formula for the normalisation and the nonlinearity: they are the parameters
  \<open>nrm\<close>, applied to every row, and \<open>act\<close>, applied to every element.
\<close>

definition add_tensors :: "real tensor \<Rightarrow> real tensor \<Rightarrow> error + real tensor" where
  "add_tensors a b =
     (if shape a = shape b then Inr \<lparr>shape = shape a, data = map2 (+) (data a) (data b)\<rparr>
      else Inl RuntimeError)"

definition map_rows :: "(real list \<Rightarrow> real list) \<Rightarrow> real tensor \<Rightarrow> real tensor" where
  "map_rows f t =
     (if shape t = [] then t
      else \<lparr>shape = shape t,
            data = concat (map f (rows (prod_list (butlast (shape t))) (last (shape t)) (data t)))\<rparr>)"

definition residual_normalize :: "(real list \<Rightarrow> real list) \<Rightarrow> real tensor \<Rightarrow> real tensor \<Rightarrow> error + real tensor" where
  "residual_normalize nrm x sub =
     (case add_tensors x sub of Inl e \<Rightarrow> Inl e | Inr s \<Rightarrow> Inr (map_rows nrm s))"

definition FeedForward_forward :: "(real \<Rightarrow> real) \<Rightarrow> FeedForward \<Rightarrow> real tensor \<Rightarrow> error + real tensor" where
  "FeedForward_forward act f x =
     (case linear_forward (linear1 f) x of
        Inl e \<Rightarrow> Inl e
      | Inr h \<Rightarrow> linear_forward (linear2 f) \<lparr>shape = shape h, data = map act (data h)\<rparr>)"

definition self_attention_sublayer :: "(real list \<Rightarrow> real list) \<Rightarrow> (nat \<Rightarrow> bool) \<Rightarrow> DecoderBlock
    \<Rightarrow> real tensor \<Rightarrow> bool tensor option \<Rightarrow> error + real tensor" where
  "self_attention_sublayer nrm keep blk x msk =
     (case MultiHeadAttention_forward (self_attention blk) keep x [] msk of
        Inl e \<Rightarrow> Inl e
      | Inr a \<Rightarrow> residual_normalize nrm x a)"

definition cross_attention_sublayer :: "(real list \<Rightarrow> real list) \<Rightarrow> (nat \<Rightarrow> bool) \<Rightarrow> DecoderBlock
    \<Rightarrow> real tensor \<Rightarrow> real tensor \<Rightarrow> bool tensor option \<Rightarrow> error + real tensor" where
  "cross_attention_sublayer nrm keep blk x memory memory_mask =
     (case MultiHeadAttention_forward (cross_attention blk) keep x [x, memory, memory] memory_mask of
        Inl e \<Rightarrow> Inl e
      | Inr c \<Rightarrow> residual_normalize nrm x c)"

definition feed_forward_sublayer :: "(real list \<Rightarrow> real list) \<Rightarrow> (real \<Rightarrow> real) \<Rightarrow> DecoderBlock
    \<Rightarrow> real tensor \<Rightarrow> error + real tensor" where
  "feed_forward_sublayer nrm act blk x =
     (case FeedForward_forward act (ffn blk) x of
        Inl e \<Rightarrow> Inl e
      | Inr f \<Rightarrow> residual_normalize nrm x f)"

definition DecoderBlock_forward :: "(real list \<Rightarrow> real list) \<Rightarrow> (real \<Rightarrow> real) \<Rightarrow> (nat \<Rightarrow> bool) \<Rightarrow> DecoderBlock
    \<Rightarrow> real tensor \<Rightarrow> real tensor \<Rightarrow> bool tensor option \<Rightarrow> bool tensor option \<Rightarrow> error + real tensor" where
  "DecoderBlock_forward nrm act keep blk x memory msk memory_mask =
     (case self_attention_sublayer nrm keep blk x msk of
        Inl e \<Rightarrow> Inl e
      | Inr x1 \<Rightarrow>
     (case cross_attention_sublayer nrm keep blk x1 memory memory_mask of
        Inl e \<Rightarrow> Inl e
      | Inr x2 \<Rightarrow> feed_forward_sublayer nrm act blk x2))"

fun Decoder_forward :: "(real list \<Rightarrow> real list) \<Rightarrow> (real \<Rightarrow> real) \<Rightarrow> (nat \<Rightarrow> bool) \<Rightarrow> DecoderBlock list
    \<Rightarrow> real tensor \<Rightarrow> real tensor \<Rightarrow> bool tensor option \<Rightarrow> bool tensor option \<Rightarrow> error + real tensor" where
  "Decoder_forward nrm act keep [] x memory msk memory_mask = Inr x"
| "Decoder_forward nrm act keep (blk # blks) x memory msk memory_mask =
     (case DecoderBlock_forward nrm act keep blk x memory msk memory_mask of
        Inl e \<Rightarrow> Inl e
      | Inr x' \<Rightarrow> Decoder_forward nrm act keep blks x' memory msk memory_mask)"

text \<open>The forward functions of a model whose decoder is this one, with the given blocks;
  the other sub-modules are those of \<open>F\<close>.\<close>

definition with_decoder :: "forward_fns \<Rightarrow> (real list \<Rightarrow> real list) \<Rightarrow> (real \<Rightarrow> real) \<Rightarrow> (nat \<Rightarrow> bool)
    \<Rightarrow> DecoderBlock list \<Rightarrow> forward_fns" where
  "with_decoder F nrm act keep blks =
     F\<lparr>decoder := (\<lambda>self we memory msk memory_mask.
                      Decoder_forward nrm act keep blks we memory msk memory_mask)\<rparr>"

section \<open>Intermediate values of the attention forward pass\<close>

text \<open>
  Names for what the forward pass of \<open>MultiHeadAttention\<close> computes on the way, used
  to state and prove its properties: a module whose sizes fit together, the query, key
  and value rows of an input row, the tensor of heads that \<open>view\<close> and
  \<open>transpose\<close> build from them, the scores, weights and output of one head at one
  position, and the concatenated heads that the final projection receives.
\<close>

definition valid_mha :: "MultiHeadAttention \<Rightarrow> bool" where
  "valid_mha m = (0 < n_head m \<and> 0 < d_model m \<and> d_model m mod n_head m = 0
     \<and> in_features (c_attn m) = nat (d_model m) \<and> out_features (c_attn m) = 3 * nat (d_model m)
     \<and> in_features (c_proj m) = nat (d_model m) \<and> out_features (c_proj m) = nat (d_model m))"

definition heads :: "MultiHeadAttention \<Rightarrow> nat" where
  "heads m = nat (n_head m)"

definition head_dim :: "MultiHeadAttention \<Rightarrow> nat" where
  "head_dim m = nat (d_model m) div nat (n_head m)"

definition q_row :: "MultiHeadAttention \<Rightarrow> real list \<Rightarrow> real list" where
  "q_row m r = take (nat (d_model m)) (affine (c_attn m) r)"

definition k_row :: "MultiHeadAttention \<Rightarrow> real list \<Rightarrow> real list" where
  "k_row m r = take (nat (d_model m)) (drop (nat (d_model m)) (affine (c_attn m) r))"

definition v_row :: "MultiHeadAttention \<Rightarrow> real list \<Rightarrow> real list" where
  "v_row m r = take (nat (d_model m)) (drop (2 * nat (d_model m)) (affine (c_attn m) r))"

definition heads_tensor :: "nat \<Rightarrow> nat \<Rightarrow> nat \<Rightarrow> nat \<Rightarrow> (nat \<Rightarrow> real list) \<Rightarrow> real tensor" where
  "heads_tensor B S hn dh f =
     \<lparr>shape = [B, hn, S, dh],
      data = concat (map (\<lambda>b. concat (map (\<lambda>h. concat (map (\<lambda>i.
               take dh (drop (h * dh) (f (b * S + i)))) [0..<S])) [0..<hn])) [0..<B])\<rparr>"

definition head_slice :: "nat \<Rightarrow> nat \<Rightarrow> real list \<Rightarrow> real list" where
  "head_slice dh h r = take dh (drop (h * dh) r)"

definition head_scores :: "bool tensor option \<Rightarrow> nat \<Rightarrow> nat \<Rightarrow> (nat \<Rightarrow> real list) \<Rightarrow> (nat \<Rightarrow> real list)
    \<Rightarrow> nat \<Rightarrow> nat \<Rightarrow> nat \<Rightarrow> real option list" where
  "head_scores msk S dh fq fk b h i =
     map (\<lambda>j. if permitted msk b h i j
               then Some (dot (head_slice dh h (fq (b * S + i))) (head_slice dh h (fk (b * S + j)))
                          / sqrt (real dh))
               else None) [0..<S]"

definition head_weights :: "real \<Rightarrow> bool \<Rightarrow> (nat \<Rightarrow> bool) \<Rightarrow> bool tensor option \<Rightarrow> nat \<Rightarrow> nat \<Rightarrow> nat
    \<Rightarrow> (nat \<Rightarrow> real list) \<Rightarrow> (nat \<Rightarrow> real list) \<Rightarrow> nat \<Rightarrow> nat \<Rightarrow> nat \<Rightarrow> real list" where
  "head_weights p tr keep msk S hn dh fq fk b h i =
     map (\<lambda>j. dropout_elem p tr (keep ((((b * hn + h) * S + i) * S) + j))
                (masked_softmax (head_scores msk S dh fq fk b h i) ! j)) [0..<S]"

definition head_output :: "real \<Rightarrow> bool \<Rightarrow> (nat \<Rightarrow> bool) \<Rightarrow> bool tensor option \<Rightarrow> nat \<Rightarrow> nat \<Rightarrow> nat
    \<Rightarrow> (nat \<Rightarrow> real list) \<Rightarrow> (nat \<Rightarrow> real list) \<Rightarrow> (nat \<Rightarrow> real list) \<Rightarrow> nat \<Rightarrow> nat \<Rightarrow> nat \<Rightarrow> real list" where
  "head_output p tr keep msk S hn dh fq fk fv b h i =
     map (\<lambda>c. sum_list (map (\<lambda>j. head_weights p tr keep msk S hn dh fq fk b h i ! j
                                  * head_slice dh h (fv (b * S + j)) ! c) [0..<S])) [0..<dh]"

text \<open>
  A mask argument fits when \<open>unsqueeze(1)\<close> turns it into a tensor that broadcasts
  against the scores; \<open>mask4\<close> is that tensor. \<open>mask_entry\<close> is the entry of a
  three-dimensional mask that applies to batch row \<open>b\<close>, query \<open>i\<close> and key \<open>j\<close>,
  and a mask is causal for a batch of \<open>B\<close> sequences of length \<open>S\<close> when it
  forbids every key position after the query position.
\<close>

definition mask_fits :: "bool tensor option \<Rightarrow> nat list \<Rightarrow> bool" where
  "mask_fits msk target =
     (case msk of None \<Rightarrow> True
      | Some mk \<Rightarrow> (case shape mk of [] \<Rightarrow> False | Bm # rest \<Rightarrow> broadcasts (Bm # 1 # rest) target))"

definition mask4 :: "bool tensor option \<Rightarrow> bool tensor option" where
  "mask4 msk = map_option (\<lambda>mk. \<lparr>shape = hd (shape mk) # 1 # tl (shape mk), data = data mk\<rparr>) msk"

definition attended :: "MultiHeadAttention \<Rightarrow> (nat \<Rightarrow> bool) \<Rightarrow> bool tensor option \<Rightarrow> nat \<Rightarrow> real tensor
    \<Rightarrow> nat \<Rightarrow> nat \<Rightarrow> real list" where
  "attended m keep msk S x b i =
     concat (map (\<lambda>h. head_output (dropout m) (in_training m) keep (mask4 msk) S (heads m) (head_dim m)
                         (\<lambda>r. q_row m (block (nat (d_model m)) r (data x)))
                         (\<lambda>r. k_row m (block (nat (d_model m)) r (data x)))
                         (\<lambda>r. v_row m (block (nat (d_model m)) r (data x))) b h i) [0..<heads m])"

definition mask_entry :: "bool tensor \<Rightarrow> nat \<Rightarrow> nat \<Rightarrow> nat \<Rightarrow> bool" where
  "mask_entry mk b i j =
     (case shape mk of
        [Bm, Qm, Km] \<Rightarrow>
          data mk ! (((if Bm = 1 then 0 else b) * Qm + (if Qm = 1 then 0 else i)) * Km
                       + (if Km = 1 then 0 else j))
      | _ \<Rightarrow> True)"

definition causal_for :: "bool tensor \<Rightarrow> nat \<Rightarrow> nat \<Rightarrow> bool" where
  "causal_for mk B S =
     list_all (\<lambda>b. list_all (\<lambda>i. list_all (\<lambda>j. \<not> mask_entry mk b i j) [Suc i..<S]) [0..<S]) [0..<B]"


section \<open>Concrete instances\<close>

text \<open>
  A small network for evaluating the loop on concrete inputs: the embeddings copy the ids,
  encoder and decoder are the identity, and the generator returns the same scores for
  every input (a generator with zero weights and a constant bias).
\<close>

definition stub_fns :: "real tensor \<Rightarrow> forward_fns" where
  "stub_fns logits =
     \<lparr>enc_p_emb = (\<lambda>m src. Inr \<lparr>shape = [1, length (data src), 1], data = map real_of_int (data src)\<rparr>),
      encoder = (\<lambda>m x msk. Inr x),
      dec_p_emb = (\<lambda>m tgt. Inr \<lparr>shape = [1, length (data tgt), 1], data = map real_of_int (data tgt)\<rparr>),
      decoder = (\<lambda>m x memory msk memory_mask. Inr x),
      gen = (\<lambda>m x. Inr logits)\<rparr>"

definition uniform_logits :: "real tensor" where
  "uniform_logits = \<lparr>shape = [1, 1, 3], data = [0, 0, 0]\<rparr>"

definition list_rng :: "real list \<Rightarrow> rng" where
  "list_rng us i = (if i < length us then us ! i else 0)"

definition demo_module :: module where
  "demo_module = Module True [] [Module True [] [], Module True [] []]"

definition demo_src :: "int tensor" where
  "demo_src = \<lparr>shape = [1, 4], data = [1, 7, 9, 2]\<rparr>"


text \<open>
  A small attention module (width 2, two heads of width 1, query weights zero, key and
  value the identity, projection the identity) in evaluation mode, the same module in
  training mode with a projection bias, and small inputs: one position, two positions,
  two positions with another second row, and the causal mask for two positions.
\<close>

definition demo_mha :: MultiHeadAttention where
  "demo_mha =
     \<lparr>c_attn = \<lparr>in_features = 2, out_features = 6,
                 weight = [[0, 0], [0, 0], [1, 0], [0, 1], [1, 0], [0, 1]],
                 bias = [0, 0, 0, 0, 0, 0]\<rparr>,
      c_proj = \<lparr>in_features = 2, out_features = 2, weight = [[1, 0], [0, 1]], bias = [0, 0]\<rparr>,
      n_head = 2, d_model = 2, dropout = 1 / 2, in_training = False\<rparr>"

definition demo_mha_training :: MultiHeadAttention where
  "demo_mha_training =
     \<lparr>c_attn = \<lparr>in_features = 2, out_features = 6,
                 weight = [[0, 0], [0, 0], [1, 0], [0, 1], [1, 0], [0, 1]],
                 bias = [0, 0, 0, 0, 0, 0]\<rparr>,
      c_proj = \<lparr>in_features = 2, out_features = 2, weight = [[1, 0], [0, 1]], bias = [5, 7]\<rparr>,
      n_head = 2, d_model = 2, dropout = 1 / 2, in_training = True\<rparr>"

definition keep_all :: "nat \<Rightarrow> bool" where
  "keep_all n = True"

definition keep_none :: "nat \<Rightarrow> bool" where
  "keep_none n = False"

definition x_one :: "real tensor" where
  "x_one = \<lparr>shape = [1, 1, 2], data = [1, 2]\<rparr>"

definition x_two :: "real tensor" where
  "x_two = \<lparr>shape = [1, 2, 2], data = [1, 2, 3, 4]\<rparr>"

definition x_two_alt :: "real tensor" where
  "x_two_alt = \<lparr>shape = [1, 2, 2], data = [1, 2, 7, 9]\<rparr>"

definition causal_mask_2 :: "bool tensor" where
  "causal_mask_2 = \<lparr>shape = [1, 2, 2], data = [True, False, True, True]\<rparr>"

definition causal_mask_1 :: "bool tensor" where
  "causal_mask_1 = \<lparr>shape = [1, 1, 1], data = [True]\<rparr>"

text \<open>
  A configuration whose head count does not divide the width and one whose head count
  does, a constructor of \<open>PositionalEncoding\<close> that creates no tensor, and initial
  values that are all zero.
\<close>

definition bad_config :: TransformerConfig where
  "bad_config =
     \<lparr>d_model_cfg = 3, n_stack = 2, n_head_cfg = 2, d_ffn_hidden = 4, dropout_cfg = 1 / 10,
      src_max_len = 20, tgt_max_len = 20, src_vocab_size = 5, tgt_vocab_size = 5, pad_idx = 0\<rparr>"

definition good_config :: TransformerConfig where
  "good_config =
     \<lparr>d_model_cfg = 4, n_stack = 1, n_head_cfg = 2, d_ffn_hidden = 4, dropout_cfg = 1 / 10,
      src_max_len = 20, tgt_max_len = 20, src_vocab_size = 5, tgt_vocab_size = 5, pad_idx = 0\<rparr>"

definition no_tensors_init :: "int \<Rightarrow> real \<Rightarrow> int \<Rightarrow> (error + unit) \<times> nat list list" where
  "no_tensors_init dm p max_len = (Inr (), [])"

definition zero_inits :: "nat \<Rightarrow> nat \<Rightarrow> real" where
  "zero_inits k n = 0"











definition zero_init :: "nat \<Rightarrow> real" where
  "zero_init n = 0"


section \<open>Properties of the generation loop\<close>

lemma rows_length [simp]: "length (rows c n xs) = c"
  by (simp add: rows_def)

lemma rows_one: "rows (Suc 0) n xs = [take n xs]"
  by (simp add: rows_def)

lemma multinomial_Inr:
  "multinomial prob us pos = Inr (s, pos') \<Longrightarrow>
     \<exists>B. shape s = [B, 1] \<and> length (data s) = B \<and> pos' = pos + B"
  unfolding multinomial_def
  by (auto split: list.splits if_splits)

lemma cat_last_one:
  assumes "cat_last a b = Inr c" "shape a = [1, T]" "length (data a) = T"
    "shape b = [B, 1]" "data b = [v]"
  shows "B = 1 \<and> shape c = [1, Suc T] \<and> data c = data a @ [v]"
  using assms unfolding cat_last_def
  by (auto split: if_splits simp: rows_one)

lemma item_Inr: "item t = Inr v \<Longrightarrow> data t = [v]"
  unfolding item_def by (auto split: list.splits)

lemma generate_step_Inr:
  assumes "generate_step F self enc_mem us toks pos = Inr (toks', pos', tok)"
    and "shape toks = [1, T]" and "length (data toks) = T"
  shows "shape toks' = [1, Suc T] \<and> data toks' = data toks @ [tok] \<and> pos' = Suc pos"
proof -
  from assms(1) obtain prob s where
    m: "multinomial prob us pos = Inr (s, pos')" and
    c: "cat_last toks s = Inr toks'" and
    i: "item s = Inr tok"
    unfolding generate_step_def
    by (auto split: sum.splits prod.splits)
  from multinomial_Inr[OF m] obtain B where B: "shape s = [B, 1]" "pos' = pos + B" by blast
  from cat_last_one[OF c assms(2,3) B(1) item_Inr[OF i]] B(2)
  show ?thesis by simp
qed


lemma generate_loop_iterations:
  "iterations (generate_loop n F self enc_mem e us st) \<le> iterations st + n"
proof (induction n arbitrary: st)
  case 0
  show ?case by simp
next
  case (Suc n)
  show ?case
  proof (cases "generate_step F self enc_mem us (generated_tokens st) (rng_pos st)")
    case (Inl err)
    then show ?thesis by simp
  next
    case (Inr r)
    obtain toks' pos' tok where r: "r = (toks', pos', tok)" by (cases r) auto
    define st' where "st' = st\<lparr>generated_tokens := toks', rng_pos := pos', iterations := Suc (iterations st)\<rparr>"
    have it: "iterations st' = Suc (iterations st)" by (simp add: st'_def)
    show ?thesis
    proof (cases "tok = e")
      case True
      with Inr r show ?thesis by simp
    next
      case False
      with Inr r have "generate_loop (Suc n) F self enc_mem e us st = generate_loop n F self enc_mem e us st'"
        by (simp add: st'_def)
      with Suc.IH[of st'] it show ?thesis by simp
    qed
  qed
qed

lemma generate_loop_inv:
  assumes "raised st = None" "shape (generated_tokens st) = [1, T]"
    "length (data (generated_tokens st)) = T"
    "raised (generate_loop n F self enc_mem e us st) = None"
  shows "\<exists>new. data (generated_tokens (generate_loop n F self enc_mem e us st))
              = data (generated_tokens st) @ new
      \<and> shape (generated_tokens (generate_loop n F self enc_mem e us st)) = [1, T + length new]
      \<and> iterations (generate_loop n F self enc_mem e us st) = iterations st + length new
      \<and> rng_pos (generate_loop n F self enc_mem e us st) = rng_pos st + length new
      \<and> length new \<le> n \<and> (n = 0 \<or> new \<noteq> [])
      \<and> list_all (\<lambda>t. t \<noteq> e) (butlast new)
      \<and> (length new = n \<or> last new = e)"
  using assms
proof (induction n arbitrary: st T)
  case 0
  then show ?case by simp
next
  case (Suc n)
  show ?case
  proof (cases "generate_step F self enc_mem us (generated_tokens st) (rng_pos st)")
    case (Inl err)
    with Suc.prems(4) show ?thesis by simp
  next
    case (Inr r)
    obtain toks' pos' tok where r: "r = (toks', pos', tok)" by (cases r) auto
    from generate_step_Inr[OF Inr[unfolded r] Suc.prems(2,3)]
    have step: "shape toks' = [1, Suc T]" "data toks' = data (generated_tokens st) @ [tok]"
      "pos' = Suc (rng_pos st)" by auto
    define st' where "st' = st\<lparr>generated_tokens := toks', rng_pos := pos', iterations := Suc (iterations st)\<rparr>"
    have st': "raised st' = None" "generated_tokens st' = toks'" "rng_pos st' = pos'"
      "iterations st' = Suc (iterations st)"
      using Suc.prems(1) by (simp_all add: st'_def)
    show ?thesis
    proof (cases "tok = e")
      case True
      with Inr r have eq: "generate_loop (Suc n) F self enc_mem e us st = st'"
        by (simp add: st'_def)
      show ?thesis
        unfolding eq st' using step True
        by (intro exI[of _ "[tok]"]) simp
    next
      case False
      with Inr r have eq: "generate_loop (Suc n) F self enc_mem e us st = generate_loop n F self enc_mem e us st'"
        by (simp add: st'_def)
      have len: "length (data (generated_tokens st')) = Suc T"
        using st'(2) step(2) Suc.prems(3) by simp
      from Suc.IH[OF st'(1) _ len, of ] Suc.prems(4) eq st'(2) step(1)
      obtain new where new:
        "data (generated_tokens (generate_loop n F self enc_mem e us st')) = data toks' @ new"
        "shape (generated_tokens (generate_loop n F self enc_mem e us st')) = [1, Suc T + length new]"
        "iterations (generate_loop n F self enc_mem e us st') = iterations st' + length new"
        "rng_pos (generate_loop n F self enc_mem e us st') = rng_pos st' + length new"
        "length new \<le> n" "n = 0 \<or> new \<noteq> []"
        "list_all (\<lambda>t. t \<noteq> e) (butlast new)"
        "length new = n \<or> last new = e"
        by (auto simp: st'(2))
      show ?thesis
        unfolding eq using new step st' False
        by (intro exI[of _ "tok # new"]) (auto)
    qed
  qed
qed


lemma stub_encode:
  "encode (stub_fns l) m src msk = Inr \<lparr>shape = [1, length (data src), 1], data = map real_of_int (data src)\<rparr>"
  by (simp add: encode_def stub_fns_def)

lemma stub_step3:
  "generate_step (stub_fns uniform_logits) m enc us toks pos =
     (case cat_last toks \<lparr>shape = [1, 1], data = [int (inv_cdf [1 / 3, 1 / 3, 1 / 3] (us pos))]\<rparr> of
        Inl e \<Rightarrow> Inl e
      | Inr toks' \<Rightarrow> Inr (toks', Suc pos, int (inv_cdf [1 / 3, 1 / 3, 1 / 3] (us pos))))"
  by (simp add: generate_step_def decode_def stub_fns_def uniform_logits_def select_last_def
      softmax_last_def softmax_row_def rows_def multinomial_def valid_distribution_def
      item_def split: sum.splits)

lemma run3: "returned (generate (stub_fns uniform_logits) demo_module demo_src 10 1 2 (list_rng [1 / 2, 1 / 2, 5 / 6]) 0)
   = Inr \<lparr>shape = [1, 4], data = [1, 1, 1, 2]\<rparr>"
  by (simp add: generate_def stub_encode long_tensor_1x1_def stub_step3 cat_last_def rows_def Let_def eval_nat_numeral list_rng_def)

lemma generate_Inr:
  assumes "returned (generate F self input n s e us pos) = Inr t"
  shows "\<exists>new. data t = s # new \<and> shape t = [1, Suc (length new)]
      \<and> steps (generate F self input n s e us pos) = length new
      \<and> rng_after (generate F self input n s e us pos) = pos + length new
      \<and> length new \<le> nat n \<and> (nat n = 0 \<or> new \<noteq> [])
      \<and> list_all (\<lambda>v. v \<noteq> e) (butlast new)
      \<and> (length new = nat n \<or> last new = e)"
proof -
  from assms obtain enc_mem where enc: "encode F (eval_mode self) input None = Inr enc_mem"
    by (cases "encode F (eval_mode self) input None") (auto simp: generate_def Let_def)
  from assms enc have start: "long_tensor_1x1 s = Inr \<lparr>shape = [1, 1], data = [s]\<rparr>"
    by (auto simp: generate_def Let_def long_tensor_1x1_def split: if_splits)
  define st0 where "st0 = \<lparr>generated_tokens = \<lparr>shape = [1, 1], data = [s]\<rparr>, rng_pos = pos,
     iterations = 0, raised = None\<rparr>"
  define st where "st = generate_loop (nat n) F (eval_mode self) enc_mem e us st0"
  have out: "generate F self input n s e us pos =
      \<lparr>returned = (case raised st of Some e \<Rightarrow> Inl e | None \<Rightarrow> Inr (generated_tokens st)),
       model_after = eval_mode self, rng_after = rng_pos st, steps = iterations st\<rparr>"
    unfolding st_def st0_def by (simp add: generate_def Let_def enc start cong: option.case_cong)
  from assms out have r: "raised st = None" and t: "t = generated_tokens st"
    by (auto split: option.splits)
  have "\<exists>new. data (generated_tokens st) = data (generated_tokens st0) @ new
      \<and> shape (generated_tokens st) = [1, 1 + length new]
      \<and> iterations st = iterations st0 + length new
      \<and> rng_pos st = rng_pos st0 + length new
      \<and> length new \<le> nat n \<and> (nat n = 0 \<or> new \<noteq> [])
      \<and> list_all (\<lambda>t. t \<noteq> e) (butlast new)
      \<and> (length new = nat n \<or> last new = e)"
    unfolding st_def
    by (rule generate_loop_inv[OF _ _ _ r[unfolded st_def]]) (simp_all add: st0_def)
  then show ?thesis
    unfolding out t by (simp add: st0_def)
qed

lemma butlast_all_nth:
  assumes "list_all P (butlast xs)" "i < length xs" "\<not> P (xs ! i)"
  shows "i = length xs - 1"
proof (rule ccontr)
  assume "i \<noteq> length xs - 1"
  with assms(2) have i: "i < length (butlast xs)" by simp
  with assms(1) have "P (butlast xs ! i)" by (simp add: list_all_length)
  with i assms(3) show False by (simp add: nth_butlast)
qed

lemma generate_step_cong:
  assumes "shape toks = [1, T]" "us pos = us' pos"
  shows "generate_step F self enc_mem us toks pos = generate_step F self enc_mem us' toks pos"
proof -
  have m: "(case multinomial prob us pos of Inl e \<Rightarrow> Inl e
        | Inr (sampled_token, pos') \<Rightarrow>
           (case cat_last toks sampled_token of Inl e \<Rightarrow> Inl e
            | Inr toks' \<Rightarrow> (case item sampled_token of Inl e \<Rightarrow> Inl e | Inr tok \<Rightarrow> Inr (toks', pos', tok))))
     = (case multinomial prob us' pos of Inl e \<Rightarrow> Inl e
        | Inr (sampled_token, pos') \<Rightarrow>
           (case cat_last toks sampled_token of Inl e \<Rightarrow> Inl e
            | Inr toks' \<Rightarrow> (case item sampled_token of Inl e \<Rightarrow> Inl e | Inr tok \<Rightarrow> Inr (toks', pos', tok))))"
    for prob
  proof (cases "shape prob")
    case Nil
    then show ?thesis by (simp add: multinomial_def)
  next
    case (Cons B rest)
    show ?thesis
    proof (cases "rest")
      case Nil
      with Cons show ?thesis by (simp add: multinomial_def)
    next
      case (Cons V rest')
      show ?thesis
      proof (cases "rest' = [] \<and> B = 1")
        case True
        with \<open>shape prob = B # rest\<close> Cons assms(2) show ?thesis
          by (simp add: multinomial_def)
      next
        case False
        with \<open>shape prob = B # rest\<close> Cons assms(1) show ?thesis
          by (cases rest') (auto simp: multinomial_def cat_last_def)
      qed
    qed
  qed
  show ?thesis
    unfolding generate_step_def
    by (simp add: m split: sum.splits)
qed

lemma generate_loop_cong:
  assumes "shape (generated_tokens st) = [1, T]" "length (data (generated_tokens st)) = T"
    "\<forall>i<n. us (rng_pos st + i) = us' (rng_pos st + i)"
  shows "generate_loop n F self enc_mem e us st = generate_loop n F self enc_mem e us' st"
  using assms
proof (induction n arbitrary: st T)
  case 0
  show ?case by simp
next
  case (Suc n)
  from Suc.prems(3) have u0: "us (rng_pos st) = us' (rng_pos st)" by force
  have eq: "generate_step F self enc_mem us (generated_tokens st) (rng_pos st)
      = generate_step F self enc_mem us' (generated_tokens st) (rng_pos st)"
    using Suc.prems(1) u0 by (rule generate_step_cong)
  show ?case
  proof (cases "generate_step F self enc_mem us (generated_tokens st) (rng_pos st)")
    case (Inl err)
    moreover from Inl eq have "generate_step F self enc_mem us' (generated_tokens st) (rng_pos st) = Inl err"
      by simp
    ultimately show ?thesis by simp
  next
    case (Inr r)
    obtain toks' pos' tok where r: "r = (toks', pos', tok)" by (cases r) auto
    from Inr eq have Inr': "generate_step F self enc_mem us' (generated_tokens st) (rng_pos st) = Inr r"
      by simp
    from generate_step_Inr[OF Inr[unfolded r] Suc.prems(1,2)]
    have step: "shape toks' = [1, Suc T]" "data toks' = data (generated_tokens st) @ [tok]"
      "pos' = Suc (rng_pos st)" by auto
    define st' where "st' = st\<lparr>generated_tokens := toks', rng_pos := pos', iterations := Suc (iterations st)\<rparr>"
    have st': "generated_tokens st' = toks'" "rng_pos st' = Suc (rng_pos st)"
      by (simp_all add: st'_def step)
    have "\<forall>i<n. us (rng_pos st' + i) = us' (rng_pos st' + i)"
      using Suc.prems(3) st'(2) by auto
    with Suc.IH[of st' "Suc T"] st'(1) step Suc.prems(2)
    have "generate_loop n F self enc_mem e us st' = generate_loop n F self enc_mem e us' st'"
      by simp
    with Inr Inr' r show ?thesis by (simp add: st'_def Let_def)
  qed
qed

lemma eval_mode_training: "list_all (\<lambda>m. \<not> training m) (all_modules (eval_mode m))"
  by (induction m) (simp add: list_all_iff)

lemma eval_mode_parameters: "all_parameters (eval_mode m) = all_parameters m"
  by (induction m) (simp add: comp_def cong: map_cong)


lemma generate_cong:
  assumes "\<forall>i<nat max_new_tokens. us (pos + i) = us' (pos + i)"
  shows "generate F self input max_new_tokens start_token_idx end_token_idx us pos
       = generate F self input max_new_tokens start_token_idx end_token_idx us' pos"
proof -
  have "generate_loop (nat max_new_tokens) F self' enc_mem end_token_idx us
          \<lparr>generated_tokens = \<lparr>shape = [1, 1], data = [start_token_idx]\<rparr>, rng_pos = pos, iterations = 0, raised = None\<rparr>
      = generate_loop (nat max_new_tokens) F self' enc_mem end_token_idx us'
          \<lparr>generated_tokens = \<lparr>shape = [1, 1], data = [start_token_idx]\<rparr>, rng_pos = pos, iterations = 0, raised = None\<rparr>"
    for self' enc_mem
    by (rule generate_loop_cong[where T = 1]) (use assms in simp_all)
  then show ?thesis
    by (simp add: generate_def Let_def long_tensor_1x1_def split: sum.splits)
qed

subsection \<open>The form of the returned sequence\<close>

text \<open>
  C1 (amended). Whenever \<open>generate\<close> returns (no call of a sub-module raises), the
  result is a tensor of one row whose first element is \<open>start_token_idx\<close>. Its length
  is 1 when \<open>max_new_tokens \<le> 0\<close>, and between 2 and \<open>max_new_tokens + 1\<close>
  otherwise. The id \<open>end_token_idx\<close> occurs at no position but the last, except at
  position 0 when the two marker ids are equal.
\<close>

theorem generate_output_form:
  assumes "returned (generate F self input max_new_tokens start_token_idx end_token_idx us pos) = Inr t"
  shows "shape t = [1, length (data t)] \<and> hd (data t) = start_token_idx
    \<and> (if max_new_tokens \<le> 0 then length (data t) = 1
        else 2 \<le> length (data t) \<and> int (length (data t)) \<le> max_new_tokens + 1)
    \<and> (\<forall>i<length (data t). data t ! i = end_token_idx \<longrightarrow>
          i = length (data t) - 1 \<or> (i = 0 \<and> start_token_idx = end_token_idx))"
proof -
  from generate_Inr[OF assms] obtain new where new:
    "data t = start_token_idx # new" "shape t = [1, Suc (length new)]"
    "length new \<le> nat max_new_tokens" "nat max_new_tokens = 0 \<or> new \<noteq> []"
    "list_all (\<lambda>v. v \<noteq> end_token_idx) (butlast new)"
    by blast
  have a: "shape t = [1, length (data t)]" "hd (data t) = start_token_idx"
    using new(1,2) by simp_all
  have b: "if max_new_tokens \<le> 0 then length (data t) = 1
        else 2 \<le> length (data t) \<and> int (length (data t)) \<le> max_new_tokens + 1"
  proof (cases "max_new_tokens \<le> 0")
    case True
    with new(3) have "new = []" by simp
    with True new(1) show ?thesis by simp
  next
    case False
    with new(4) have "new \<noteq> []" by simp
    then have "1 \<le> length new" by (cases new) simp_all
    with False new(1,3) show ?thesis by simp
  qed
  have c: "i = length (data t) - 1 \<or> (i = 0 \<and> start_token_idx = end_token_idx)"
    if "i < length (data t)" "data t ! i = end_token_idx" for i
  proof (cases i)
    case 0
    with that(2) new(1) show ?thesis by simp
  next
    case (Suc j)
    with that new(1) have "j < length new" "new ! j = end_token_idx" by simp_all
    with butlast_all_nth[OF new(5), of j] have "j = length new - 1" by simp
    with Suc \<open>j < length new\<close> new(1) show ?thesis by simp
  qed
  from a b c show ?thesis by blast
qed

theorem generate_output_form_witness:
  "returned (generate (stub_fns uniform_logits) demo_module demo_src 10 1 2
      (list_rng [1 / 2, 1 / 2, 5 / 6]) 0) = Inr \<lparr>shape = [1, 4], data = [1, 1, 1, 2]\<rparr>
   \<and> hd [1, 1, 1, 2 :: int] = 1
   \<and> 2 \<le> length [1, 1, 1, 2 :: int] \<and> int (length [1, 1, 1, 2 :: int]) \<le> 10 + 1"
  using generate_output_form [OF run3] run3 by simp

text \<open>
  The claim as stated fails at two inputs. With \<open>max_new_tokens = 0\<close> the loop body
  never runs and the result is the start marker alone, of length 1. With both markers
  equal to 2 and one loop iteration that samples id 1, the result is \<open>[2, 1]\<close>: the end
  marker occurs at position 0, which is not the last.
\<close>

theorem generate_output_form_counterexample:
  "returned (generate (stub_fns uniform_logits) demo_module demo_src 0 1 2 (list_rng [1 / 2]) 0)
     = Inr \<lparr>shape = [1, 1], data = [1]\<rparr>
   \<and> returned (generate (stub_fns uniform_logits) demo_module demo_src 1 2 2 (list_rng [1 / 2]) 0)
     = Inr \<lparr>shape = [1, 2], data = [2, 1]\<rparr>"
  by (simp add: generate_def stub_encode long_tensor_1x1_def stub_step3 cat_last_def rows_def
      Let_def list_rng_def)

subsection \<open>Termination of the loop\<close>

text \<open>
  C3. The loop of \<open>generate\<close> is a bounded \<open>for\<close> loop, so every call ends: it enters
  at most \<open>max_new_tokens\<close> iterations (none when that number is not positive), also
  when a sub-module raises. When the call returns, each iteration has appended exactly
  one id, no id sampled before the last one is \<open>end_token_idx\<close>, and if fewer than
  \<open>max_new_tokens\<close> iterations ran then the last sampled id is \<open>end_token_idx\<close>.
\<close>

theorem generate_loop_bounded:
  "steps (generate F self input max_new_tokens start_token_idx end_token_idx us pos) \<le> nat max_new_tokens
   \<and> (\<forall>t. returned (generate F self input max_new_tokens start_token_idx end_token_idx us pos) = Inr t \<longrightarrow>
         length (data t) = Suc (steps (generate F self input max_new_tokens start_token_idx end_token_idx us pos))
       \<and> list_all (\<lambda>v. v \<noteq> end_token_idx) (butlast (tl (data t)))
       \<and> (steps (generate F self input max_new_tokens start_token_idx end_token_idx us pos) < nat max_new_tokens
            \<longrightarrow> tl (data t) \<noteq> [] \<and> last (data t) = end_token_idx))"
proof -
  have "steps (generate F self input max_new_tokens start_token_idx end_token_idx us pos) \<le> nat max_new_tokens"
    using generate_loop_iterations[of "nat max_new_tokens" F "eval_mode self" _ end_token_idx us
        "\<lparr>generated_tokens = _, rng_pos = pos, iterations = 0, raised = None\<rparr>"]
    by (auto simp: generate_def Let_def split: sum.splits)
  moreover have "length (data t) = Suc (steps (generate F self input max_new_tokens start_token_idx end_token_idx us pos))
       \<and> list_all (\<lambda>v. v \<noteq> end_token_idx) (butlast (tl (data t)))
       \<and> (steps (generate F self input max_new_tokens start_token_idx end_token_idx us pos) < nat max_new_tokens
            \<longrightarrow> tl (data t) \<noteq> [] \<and> last (data t) = end_token_idx)"
    if "returned (generate F self input max_new_tokens start_token_idx end_token_idx us pos) = Inr t" for t
    using generate_Inr[OF that] by auto
  ultimately show ?thesis by blast
qed

theorem generate_loop_bounded_witness:
  "steps (generate (stub_fns uniform_logits) demo_module demo_src 10 1 2
      (list_rng [1 / 2, 1 / 2, 5 / 6]) 0) \<le> nat 10
   \<and> returned (generate (stub_fns uniform_logits) demo_module demo_src 10 1 2
      (list_rng [1 / 2, 1 / 2, 5 / 6]) 0) = Inr \<lparr>shape = [1, 4], data = [1, 1, 1, 2]\<rparr>
   \<and> steps (generate (stub_fns uniform_logits) demo_module demo_src 10 1 2
      (list_rng [1 / 2, 1 / 2, 5 / 6]) 0) = 3
   \<and> last [1, 1, 1, 2 :: int] = 2"
  using generate_loop_bounded [of "stub_fns uniform_logits" demo_module demo_src 10 1 2
      "list_rng [1 / 2, 1 / 2, 5 / 6]" 0] run3
  by simp

subsection \<open>Determinism under a fixed random stream\<close>

text \<open>
  C9. All randomness of \<open>generate\<close> comes from the draws of \<open>torch.multinomial\<close>,
  one per loop iteration. Two runs on the same model and input whose random streams
  agree on the first \<open>max_new_tokens\<close> draws from the starting position (as two runs
  from the same seed do) have the same outcome: the same returned ids or exception, the
  same number of steps and the same final stream position. Without a fixed stream the
  result is random: there are a model, an input and two streams on which the scenario
  \<open>max_new_tokens = 10\<close>, \<open>start_token_idx = 1\<close>, \<open>end_token_idx = 2\<close> returns
  different sequences.
\<close>

theorem generate_seeded_deterministic:
  "((\<forall>i<nat max_new_tokens. us (pos + i) = us' (pos + i)) \<longrightarrow>
      generate F self input max_new_tokens start_token_idx end_token_idx us pos
        = generate F self input max_new_tokens start_token_idx end_token_idx us' pos)
   \<and> (\<exists>G m src vs vs'. returned (generate G m src 10 1 2 vs 0) \<noteq> returned (generate G m src 10 1 2 vs' 0))"
proof -
  have "returned (generate (stub_fns uniform_logits) demo_module demo_src 10 1 2 (list_rng [1 / 2, 1 / 2, 5 / 6]) 0)
      \<noteq> returned (generate (stub_fns uniform_logits) demo_module demo_src 10 1 2 (list_rng [5 / 6]) 0)"
    unfolding run3
    by (simp add: generate_def stub_encode long_tensor_1x1_def stub_step3 cat_last_def rows_def
        Let_def list_rng_def eval_nat_numeral)
  then have "\<exists>G m src vs vs'. returned (generate G m src 10 1 2 vs 0) \<noteq> returned (generate G m src 10 1 2 vs' 0)"
    by blast
  with generate_cong show ?thesis by blast
qed

theorem generate_seeded_deterministic_witness:
  "generate (stub_fns uniform_logits) demo_module demo_src 3 1 2 (list_rng [1 / 2, 1 / 2, 5 / 6]) 0
     = generate (stub_fns uniform_logits) demo_module demo_src 3 1 2 (list_rng [1 / 2, 1 / 2, 5 / 6, 1 / 6]) 0"
proof -
  have h: "\<forall>i<nat 3. list_rng [1 / 2, 1 / 2, 5 / 6] (0 + i) = list_rng [1 / 2, 1 / 2, 5 / 6, 1 / 6] (0 + i)"
    by (simp add: list_rng_def eval_nat_numeral less_Suc_eq)
  from generate_seeded_deterministic [of 3 "list_rng [1 / 2, 1 / 2, 5 / 6]" 0
      "list_rng [1 / 2, 1 / 2, 5 / 6, 1 / 6]" "stub_fns uniform_logits" demo_module demo_src 1 2] h
  show ?thesis by blast
qed

subsection \<open>The effect of generate on the module\<close>

text \<open>
  C10. After a call of \<open>generate\<close>, whether it returned or raised, the module is the
  one before the call with evaluation mode applied: the training flag of the module and
  of every sub-module is off, and every parameter and buffer is what it was.
\<close>

theorem generate_sets_eval_mode:
  "model_after (generate F self input max_new_tokens start_token_idx end_token_idx us pos) = eval_mode self
   \<and> list_all (\<lambda>m. \<not> training m)
        (all_modules (model_after (generate F self input max_new_tokens start_token_idx end_token_idx us pos)))
   \<and> all_parameters (model_after (generate F self input max_new_tokens start_token_idx end_token_idx us pos))
        = all_parameters self"
proof -
  have "model_after (generate F self input max_new_tokens start_token_idx end_token_idx us pos) = eval_mode self"
    by (simp add: generate_def Let_def split: sum.splits)
  then show ?thesis
    by (simp add: eval_mode_training eval_mode_parameters)
qed

theorem generate_sets_eval_mode_witness:
  "model_after (generate (stub_fns uniform_logits) demo_module demo_src 10 1 2
      (list_rng [1 / 2, 1 / 2, 5 / 6]) 0) = Module False [] [Module False [] [], Module False [] []]"
  using generate_sets_eval_mode [of "stub_fns uniform_logits" demo_module demo_src 10 1 2
      "list_rng [1 / 2, 1 / 2, 5 / 6]" 0]
  by (simp add: demo_module_def)

section \<open>Properties of the attention layers\<close>

subsection \<open>Rows of flat data\<close>

lemma length_concat_map_upt:
  assumes "\<And>i. i < n \<Longrightarrow> length (f i) = m"
  shows "length (concat (map f [0..<n])) = n * m"
  using assms by (induction n) simp_all

lemma take_drop_concat_map_upt:
  assumes len: "\<And>i. i < n \<Longrightarrow> length (f i) = m"
    and i: "i < n" and fit: "off + k \<le> m"
  shows "take k (drop (i * m + off) (concat (map f [0..<n]))) = take k (drop off (f i))"
  using len i
proof (induction n)
  case 0
  then show ?case by simp
next
  case (Suc n)
  have L: "length (concat (map f [0..<n])) = n * m"
    by (rule length_concat_map_upt) (simp add: Suc.prems(1))
  show ?case
  proof (cases "i < n")
    case True
    have "Suc i \<le> n" using True by simp
    then have "(Suc i) * m \<le> n * m" by (rule mult_le_mono1)
    with fit have "i * m + off + k \<le> n * m" by simp
    with L Suc.IH[OF _ True] Suc.prems(1) show ?thesis by simp
  next
    case False
    with Suc.prems(2) have "i = n" by simp
    with L show ?thesis by simp
  qed
qed

lemma block_concat_map_upt:
  assumes "\<And>i. i < n \<Longrightarrow> length (f i) = m" "i < n"
  shows "block m i (concat (map f [0..<n])) = f i"
proof -
  have "take m (drop (i * m + 0) (concat (map f [0..<n]))) = take m (drop 0 (f i))"
    by (rule take_drop_concat_map_upt) (use assms in simp_all)
  with assms show ?thesis by (simp add: block_def)
qed

lemma rows_nth: "i < c \<Longrightarrow> rows c n xs ! i = block n i xs"
  by (simp add: rows_def block_def)

lemma rows_eq: "rows c n xs = map (\<lambda>i. block n i xs) [0..<c]"
  by (simp add: rows_def block_def)

lemma idx_less: "b < B \<Longrightarrow> i < S \<Longrightarrow> b * S + i < B * (S::nat)"
proof -
  assume b: "b < B" and i: "i < S"
  have "b * S + i < b * S + S" using i by simp
  also have "\<dots> = Suc b * S" by simp
  also have "\<dots> \<le> B * S" using b by (intro mult_le_mono1) simp
  finally show ?thesis .
qed

lemma slice_fits: "j < hn \<Longrightarrow> j * dh + dh \<le> hn * (dh::nat)"
proof -
  assume "j < hn"
  then have "Suc j * dh \<le> hn * dh" by (intro mult_le_mono1) simp
  then show ?thesis by (simp add: add.commute)
qed

lemma block_sub:
  assumes "\<And>r. r < n \<Longrightarrow> length (f r) = hn * dh" "r < n" "j < hn"
  shows "block dh (r * hn + j) (concat (map f [0..<n])) = take dh (drop (j * dh) (f r))"
proof -
  have "(r * hn + j) * dh = r * (hn * dh) + j * dh" by (simp add: algebra_simps)
  moreover have "take dh (drop (r * (hn * dh) + j * dh) (concat (map f [0..<n]))) = take dh (drop (j * dh) (f r))"
    by (rule take_drop_concat_map_upt) (use assms slice_fits in simp_all)
  ultimately show ?thesis by (simp add: block_def)
qed

lemma block_concat2:
  assumes len: "\<And>a b. a < A \<Longrightarrow> b < B \<Longrightarrow> length (g a b) = D" and a: "a < A" and b: "b < B"
  shows "block D (a * B + b) (concat (map (\<lambda>a. concat (map (\<lambda>b. g a b) [0..<B])) [0..<A])) = g a b"
proof -
  have inner: "length (concat (map (\<lambda>b. g a' b) [0..<B])) = B * D" if "a' < A" for a'
    by (rule length_concat_map_upt) (simp add: len that)
  have "block D (a * B + b) (concat (map (\<lambda>a. concat (map (\<lambda>b. g a b) [0..<B])) [0..<A]))
      = take D (drop (b * D) (concat (map (\<lambda>b. g a b) [0..<B])))"
    by (rule block_sub) (use inner a b in simp_all)
  also have "\<dots> = block D b (concat (map (\<lambda>b. g a b) [0..<B]))" by (simp add: block_def)
  also have "\<dots> = g a b" by (rule block_concat_map_upt) (use len a b in simp_all)
  finally show ?thesis .
qed

lemma length_concat2:
  assumes "\<And>a b. a < A \<Longrightarrow> b < B \<Longrightarrow> length (g a b) = D"
  shows "length (concat (map (\<lambda>a. concat (map (\<lambda>b. g a b) [0..<B])) [0..<A])) = A * (B * D)"
  by (rule length_concat_map_upt, rule length_concat_map_upt) (simp add: assms)

lemma block_concat3:
  assumes len: "\<And>a b c. a < A \<Longrightarrow> b < B \<Longrightarrow> c < C \<Longrightarrow> length (g a b c) = D"
    and a: "a < A" and b: "b < B" and c: "c < C"
  shows "block D ((a * B + b) * C + c)
      (concat (map (\<lambda>a. concat (map (\<lambda>b. concat (map (\<lambda>c. g a b c) [0..<C])) [0..<B])) [0..<A])) = g a b c"
proof -
  have inner: "length (concat (map (\<lambda>c. g a' b' c) [0..<C])) = C * D" if "a' < A" "b' < B" for a' b'
    by (rule length_concat_map_upt) (simp add: len that)
  have ab: "a * B + b < A * B" using a b by (rule idx_less)
  have "block D ((a * B + b) * C + c)
      (concat (map (\<lambda>a. concat (map (\<lambda>b. concat (map (\<lambda>c. g a b c) [0..<C])) [0..<B])) [0..<A]))
     = take D (drop (c * D) (block (C * D) (a * B + b)
         (concat (map (\<lambda>a. concat (map (\<lambda>b. concat (map (\<lambda>c. g a b c) [0..<C])) [0..<B])) [0..<A]))))"
  proof -
    have "c * D + D \<le> C * D" using c by (rule slice_fits)
    then have "take D (drop (c * D) (take (C * D) ys)) = take D (drop (c * D) ys)" for ys :: "'a list"
      by (simp add: drop_take min_def)
    moreover have "((a * B + b) * C + c) * D = c * D + (a * B + b) * (C * D)" by (simp add: algebra_simps)
    ultimately show ?thesis by (simp add: block_def drop_drop)
  qed
  also have "block (C * D) (a * B + b)
         (concat (map (\<lambda>a. concat (map (\<lambda>b. concat (map (\<lambda>c. g a b c) [0..<C])) [0..<B])) [0..<A]))
      = concat (map (\<lambda>c. g a b c) [0..<C])"
    by (rule block_concat2[where g = "\<lambda>a b. concat (map (\<lambda>c. g a b c) [0..<C])"]) (use inner a b in simp_all)
  also have "take D (drop (c * D) (concat (map (\<lambda>c. g a b c) [0..<C]))) = g a b c"
    using block_concat_map_upt[of C "\<lambda>c. g a b c" D c] len a b c by (simp add: block_def)
  finally show ?thesis .
qed

lemma div_mod_idx: "r < B * S \<Longrightarrow> r div S < B \<and> r mod S < (S::nat) \<and> (r div S) * S + r mod S = r"
  by (cases "S = 0") (simp_all add: less_mult_imp_div_less)


subsection \<open>The stages of the forward pass\<close>

lemma length_affine [simp]: "length (affine L r) = out_features L"
  by (simp add: affine_def)

lemma num_chunks: "0 < d \<Longrightarrow> (4 * d - Suc 0) div d = (3::nat)"
  by (rule div_nat_eqI) simp_all

lemma upt_2: "[0..<2] = [0, 1]"
  by (simp add: upt_rec)

lemma upt_3: "[0..<3] = [0, 1, 2]"
  by (simp add: upt_rec)

lemma upt_6: "[0..<6] = [0, 1, 2, 3, 4, 5]"
  by (simp add: upt_rec)

lemma linear_forward_3d:
  assumes "shape x = [B, S, E]" "in_features L = E"
  shows "linear_forward L x = Inr \<lparr>shape = [B, S, out_features L],
     data = concat (map (\<lambda>r. affine L (block E r (data x))) [0..<B * S])\<rparr>"
  using assms by (simp add: linear_forward_def rows_eq comp_def)

lemma project_qkv_self:
  assumes d: "0 < d_model m" and i: "in_features (c_attn m) = nat (d_model m)"
    and out: "out_features (c_attn m) = 3 * nat (d_model m)"
    and x: "shape x = [B, S, nat (d_model m)]"
  shows "project_qkv m x [] = Inr
     (\<lparr>shape = [B, S, nat (d_model m)], data = concat (map (\<lambda>r. q_row m (block (nat (d_model m)) r (data x))) [0..<B * S])\<rparr>,
      \<lparr>shape = [B, S, nat (d_model m)], data = concat (map (\<lambda>r. k_row m (block (nat (d_model m)) r (data x))) [0..<B * S])\<rparr>,
      \<lparr>shape = [B, S, nat (d_model m)], data = concat (map (\<lambda>r. v_row m (block (nat (d_model m)) r (data x))) [0..<B * S])\<rparr>)"
proof -
  define dn where "dn = nat (d_model m)"
  have dn: "0 < dn" "d_model m = int dn" using d by (simp_all add: dn_def)
  define P where "P = concat (map (\<lambda>r. affine (c_attn m) (block dn r (data x))) [0..<B * S])"
  have lin: "linear_forward (c_attn m) x = Inr \<lparr>shape = [B, S, 3 * dn], data = P\<rparr>"
    using linear_forward_3d[OF x i] out by (simp add: P_def dn_def)
  have rowsP: "rows (B * S) (3 * dn) P = map (\<lambda>r. affine (c_attn m) (block dn r (data x))) [0..<B * S]"
    unfolding rows_eq P_def
    by (rule map_cong[OF refl]) (simp add: block_concat_map_upt out dn_def)
  have split: "split_dim2 \<lparr>shape = [B, S, 3 * dn], data = P\<rparr> (d_model m) = Inr
     [\<lparr>shape = [B, S, dn], data = concat (map (\<lambda>r. take dn (drop (0 * dn) (affine (c_attn m) (block dn r (data x))))) [0..<B * S])\<rparr>,
      \<lparr>shape = [B, S, dn], data = concat (map (\<lambda>r. take dn (drop (1 * dn) (affine (c_attn m) (block dn r (data x))))) [0..<B * S])\<rparr>,
      \<lparr>shape = [B, S, dn], data = concat (map (\<lambda>r. take dn (drop (2 * dn) (affine (c_attn m) (block dn r (data x))))) [0..<B * S])\<rparr>]"
    using dn(1) by (simp add: split_dim2_def dn(2) num_chunks Let_def upt_3 rowsP comp_def)
  show ?thesis
    unfolding project_qkv_def
    by (simp add: lin split unpack3_def q_row_def k_row_def v_row_def dn_def[symmetric])
qed

lemma valid_mha_dims:
  assumes "valid_mha m"
  obtains hn dh where "n_head m = int hn" "0 < hn" "0 < dh" "nat (d_model m) = hn * dh"
    "int (nat (d_model m)) div n_head m = int dh" "d_model m = int (hn * dh)"
proof -
  from assms have h: "0 < n_head m" and d: "0 < d_model m" and dv: "d_model m mod n_head m = 0"
    by (simp_all add: valid_mha_def)
  define hn where "hn = nat (n_head m)"
  define dh where "dh = nat (d_model m div n_head m)"
  have hn: "n_head m = int hn" "0 < hn" using h by (simp_all add: hn_def)
  have "d_model m = n_head m * (d_model m div n_head m)" using dv by (simp add: mod_eq_0_iff_dvd)
  moreover have nn: "0 \<le> d_model m div n_head m" using h d by (simp add: pos_imp_zdiv_nonneg_iff)
  ultimately have eq: "d_model m = int (hn * dh)" using h by (simp add: hn_def dh_def)
  then have 1: "nat (d_model m) = hn * dh" by (simp add: nat_mult_distrib)
  with d have "0 < dh" by (cases dh) simp_all
  moreover have "int (nat (d_model m)) div n_head m = int dh"
    using d nn by (simp add: dh_def)
  ultimately show ?thesis using that hn 1 eq by blast
qed

lemma split_heads_canonical:
  assumes hn: "n_head m = int hn" "0 < hn"
    and len: "\<And>r. length (f r) = hn * dh"
  shows "split_heads m B S (hn * dh) \<lparr>shape = [B, S, hn * dh], data = concat (map f [0..<B * S])\<rparr>
     = Inr (heads_tensor B S hn dh f)"
proof -
  have v: "view \<lparr>shape = [B, S, hn * dh], data = concat (map f [0..<B * S])\<rparr>
             [int B, int S, int hn, int dh]
      = Inr \<lparr>shape = [B, S, hn, dh], data = concat (map f [0..<B * S])\<rparr>"
    by (simp add: view_def numel_def)
  have t: "transpose12 \<lparr>shape = [B, S, hn, dh], data = concat (map f [0..<B * S])\<rparr>
      = Inr (heads_tensor B S hn dh f)"
    unfolding transpose12_def heads_tensor_def
    apply simp
    apply (intro arg_cong[where f = concat] map_cong refl)
    apply (rule block_sub)
      apply (simp_all add: len idx_less)
    done
  show ?thesis
    using hn(2) by (simp add: split_heads_def hn(1) v t)
qed

lemma length_head_slice:
  "length r = hn * dh \<Longrightarrow> h < hn \<Longrightarrow> length (head_slice dh h r) = dh"
  using slice_fits[of h hn dh] by (simp add: head_slice_def)

lemma heads_tensor_block:
  assumes "\<And>r. length (f r) = hn * dh" "b < B" "h < hn" "i < S"
  shows "block dh ((b * hn + h) * S + i) (data (heads_tensor B S hn dh f)) = head_slice dh h (f (b * S + i))"
  unfolding heads_tensor_def head_slice_def[symmetric]
  by (simp, rule block_concat3) (use assms in \<open>simp_all add: length_head_slice[where hn = hn]\<close>)

lemma attention_weights_heads:
  assumes "\<And>r. length (fq r) = hn * dh" "\<And>r. length (fk r) = hn * dh" "b < B" "h < hn" "i < S"
  shows "attention_weights p tr keep (heads_tensor B S hn dh fq) (heads_tensor B S hn dh fk) msk b h i
     = head_weights p tr keep msk S hn dh fq fk b h i"
proof -
  have q: "block dh ((b * hn + h) * S + i) (data (heads_tensor B S hn dh fq)) = head_slice dh h (fq (b * S + i))"
    by (rule heads_tensor_block) (use assms in simp_all)
  have k: "block dh ((b * hn + h) * S + j) (data (heads_tensor B S hn dh fk)) = head_slice dh h (fk (b * S + j))"
    if "j < S" for j
    by (rule heads_tensor_block) (use assms that in simp_all)
  have sh: "shape (heads_tensor B S hn dh fq) = [B, hn, S, dh]" "shape (heads_tensor B S hn dh fk) = [B, hn, S, dh]"
    by (simp_all add: heads_tensor_def)
  have sc: "map (\<lambda>j. if permitted msk b h i j
                      then Some (dot (block dh ((b * hn + h) * S + i) (data (heads_tensor B S hn dh fq)))
                                      (block dh ((b * hn + h) * S + j) (data (heads_tensor B S hn dh fk)))
                                 / sqrt (real dh))
                      else None) [0..<S] = head_scores msk S dh fq fk b h i"
    unfolding head_scores_def q
    by (rule map_cong[OF refl]) (simp add: k)
  show ?thesis
    unfolding attention_weights_def sh head_weights_def
    by (simp add: sc)
qed

lemma attention_row_heads:
  assumes "\<And>r. length (fv r) = hn * dh" "b < B" "h < hn"
  shows "attention_row w (heads_tensor B S hn dh fv) b h
     = map (\<lambda>c. sum_list (map (\<lambda>j. w ! j * head_slice dh h (fv (b * S + j)) ! c) [0..<S])) [0..<dh]"
proof -
  have v: "block dh ((b * hn + h) * S + j) (data (heads_tensor B S hn dh fv)) = head_slice dh h (fv (b * S + j))"
    if "j < S" for j
    by (rule heads_tensor_block) (use assms that in simp_all)
  have sh: "shape (heads_tensor B S hn dh fv) = [B, hn, S, dh]"
    by (simp add: heads_tensor_def)
  show ?thesis
    unfolding attention_row_def sh
    apply clarsimp
    apply (rule arg_cong[where f = sum_list])
    apply (rule map_cong[OF refl])
    apply (simp add: v)
    done
qed

lemma sdpa_heads:
  assumes "\<And>r. length (fq r) = hn * dh" "\<And>r. length (fk r) = hn * dh" "\<And>r. length (fv r) = hn * dh"
    and "case msk of None \<Rightarrow> True | Some m \<Rightarrow> broadcasts (shape m) [B, hn, S, S]"
  shows "ScaledDotProductAttention_forward p tr keep (heads_tensor B S hn dh fq) (heads_tensor B S hn dh fk)
           (heads_tensor B S hn dh fv) msk
     = Inr \<lparr>shape = [B, hn, S, dh],
            data = concat (map (\<lambda>b. concat (map (\<lambda>h. concat (map (\<lambda>i.
                     head_output p tr keep msk S hn dh fq fk fv b h i) [0..<S])) [0..<hn])) [0..<B])\<rparr>"
proof -
  have sh: "shape (heads_tensor B S hn dh f) = [B, hn, S, dh]" for f
    by (simp add: heads_tensor_def)
  have row: "attention_row (attention_weights p tr keep (heads_tensor B S hn dh fq) (heads_tensor B S hn dh fk) msk b h i)
               (heads_tensor B S hn dh fv) b h = head_output p tr keep msk S hn dh fq fk fv b h i"
    if "b < B" "h < hn" "i < S" for b h i
    by (simp add: attention_weights_heads[OF assms(1,2) that] attention_row_heads[OF assms(3) that(1,2)]
        head_output_def)
  have m: "\<not> (case msk of None \<Rightarrow> False | Some m \<Rightarrow> \<not> broadcasts (shape m) [B, hn, S, S])"
    using assms(4) by (cases msk) simp_all
  have d: "concat (map (\<lambda>b. concat (map (\<lambda>h. concat (map (\<lambda>i.
             attention_row (attention_weights p tr keep (heads_tensor B S hn dh fq) (heads_tensor B S hn dh fk) msk b h i)
               (heads_tensor B S hn dh fv) b h) [0..<S])) [0..<hn])) [0..<B])
       = concat (map (\<lambda>b. concat (map (\<lambda>h. concat (map (\<lambda>i.
                     head_output p tr keep msk S hn dh fq fk fv b h i) [0..<S])) [0..<hn])) [0..<B])"
    by (intro arg_cong[where f = concat] map_cong refl) (simp add: row)
  show ?thesis
    unfolding ScaledDotProductAttention_forward_def sh
    using m by (simp add: d)
qed

lemma length_head_output [simp]: "length (head_output p tr keep msk S hn dh fq fk fv b h i) = dh"
  by (simp add: head_output_def)

lemma forward_self_attention:
  assumes valid: "valid_mha m" and x: "shape x = [B, S, nat (d_model m)]"
    and msk: "mask_fits msk [B, heads m, S, S]"
  shows "MultiHeadAttention_forward m keep x [] msk =
     Inr \<lparr>shape = [B, S, nat (d_model m)],
          data = concat (map (\<lambda>r. affine (c_proj m) (attended m keep msk S x (r div S) (r mod S))) [0..<B * S])\<rparr>"
proof -
  from valid obtain hn dh where hd: "n_head m = int hn" "0 < hn" "0 < dh" "nat (d_model m) = hn * dh"
    "d_model m = int (hn * dh)"
    by (rule valid_mha_dims)
  have hs: "heads m = hn" "head_dim m = dh" using hd by (simp_all add: heads_def head_dim_def)
  define d where "d = nat (d_model m)"
  have d: "d = hn * dh" "nat (d_model m) = d" using hd by (simp_all add: d_def)
  from valid have lay: "0 < d_model m" "in_features (c_attn m) = d" "out_features (c_attn m) = 3 * d"
    "in_features (c_proj m) = d" "out_features (c_proj m) = d"
    by (simp_all add: valid_mha_def d_def)
  define fq where "fq = (\<lambda>r. q_row m (block d r (data x)))"
  define fk where "fk = (\<lambda>r. k_row m (block d r (data x)))"
  define fv where "fv = (\<lambda>r. v_row m (block d r (data x)))"
  have len: "length (fq r) = hn * dh" "length (fk r) = hn * dh" "length (fv r) = hn * dh" for r
    using lay(3) d by (simp_all add: fq_def fk_def fv_def q_row_def k_row_def v_row_def)
  have pq: "project_qkv m x [] = Inr
     (\<lparr>shape = [B, S, hn * dh], data = concat (map fq [0..<B * S])\<rparr>,
      \<lparr>shape = [B, S, hn * dh], data = concat (map fk [0..<B * S])\<rparr>,
      \<lparr>shape = [B, S, hn * dh], data = concat (map fv [0..<B * S])\<rparr>)"
    using project_qkv_self[OF lay(1) lay(2)[folded d(2)] lay(3)[folded d(2)] x]
    by (simp add: fq_def fk_def fv_def d(2) d(1)[symmetric])
  have sp: "split_heads m B S (hn * dh) \<lparr>shape = [B, S, hn * dh], data = concat (map f [0..<B * S])\<rparr>
      = Inr (heads_tensor B S hn dh f)" if "\<And>r. length (f r) = hn * dh" for f
    by (rule split_heads_canonical) (use hd that in simp_all)
  define msk4 where "msk4 = mask4 msk"
  have un: "(case msk of None \<Rightarrow> Inr None
                 | Some m \<Rightarrow> (case unsqueeze1 m of Inl e \<Rightarrow> Inl e | Inr m4 \<Rightarrow> Inr (Some m4))) = Inr msk4"
    using msk by (cases msk) (auto simp: mask_fits_def unsqueeze1_def msk4_def mask4_def split: list.splits)
  have ok: "case msk4 of None \<Rightarrow> True | Some m \<Rightarrow> broadcasts (shape m) [B, hn, S, S]"
    using msk hs by (cases msk) (auto simp: mask_fits_def msk4_def mask4_def split: list.splits)
  define ho where "ho = head_output (dropout m) (in_training m) keep msk4 S hn dh fq fk fv"
  have at: "ScaledDotProductAttention_forward (dropout m) (in_training m) keep (heads_tensor B S hn dh fq)
        (heads_tensor B S hn dh fk) (heads_tensor B S hn dh fv) msk4
      = Inr \<lparr>shape = [B, hn, S, dh],
            data = concat (map (\<lambda>b. concat (map (\<lambda>h. concat (map (\<lambda>i. ho b h i) [0..<S])) [0..<hn])) [0..<B])\<rparr>"
    unfolding ho_def by (rule sdpa_heads) (use len ok in simp_all)
  have tr: "transpose12 \<lparr>shape = [B, hn, S, dh],
            data = concat (map (\<lambda>b. concat (map (\<lambda>h. concat (map (\<lambda>i. ho b h i) [0..<S])) [0..<hn])) [0..<B])\<rparr>
      = Inr \<lparr>shape = [B, S, hn, dh],
            data = concat (map (\<lambda>b. concat (map (\<lambda>i. concat (map (\<lambda>h. ho b h i) [0..<hn])) [0..<S])) [0..<B])\<rparr>"
    unfolding transpose12_def
    apply simp
    apply (intro arg_cong[where f = concat] map_cong refl)
    apply (rule block_concat3)
       apply (simp_all add: ho_def)
    done
  have vw: "view (contiguous \<lparr>shape = [B, S, hn, dh], data = ys\<rparr>) [int B, int S, int (hn * dh)]
      = Inr \<lparr>shape = [B, S, hn * dh], data = ys\<rparr>" for ys :: "real list"
    by (simp add: view_def contiguous_def numel_def nat_mult_distrib)
  have merged: "block (hn * dh) r (concat (map (\<lambda>b. concat (map (\<lambda>i. concat (map (\<lambda>h. ho b h i) [0..<hn])) [0..<S])) [0..<B]))
      = concat (map (\<lambda>h. ho (r div S) h (r mod S)) [0..<hn])" if "r < B * S" for r
  proof -
    from div_mod_idx[OF that] have r: "r div S < B" "r mod S < S" "(r div S) * S + r mod S = r" by simp_all
    have "block (hn * dh) ((r div S) * S + r mod S)
        (concat (map (\<lambda>b. concat (map (\<lambda>i. concat (map (\<lambda>h. ho b h i) [0..<hn])) [0..<S])) [0..<B]))
      = concat (map (\<lambda>h. ho (r div S) h (r mod S)) [0..<hn])"
      by (rule block_concat2[where g = "\<lambda>b i. concat (map (\<lambda>h. ho b h i) [0..<hn])"])
        (use r in \<open>simp_all add: length_concat_map_upt[where m = dh] ho_def\<close>)
    with r(3) show ?thesis by simp
  qed
  have pr: "linear_forward (c_proj m) \<lparr>shape = [B, S, hn * dh],
        data = concat (map (\<lambda>b. concat (map (\<lambda>i. concat (map (\<lambda>h. ho b h i) [0..<hn])) [0..<S])) [0..<B])\<rparr>
      = Inr \<lparr>shape = [B, S, d],
          data = concat (map (\<lambda>r. affine (c_proj m) (concat (map (\<lambda>h. ho (r div S) h (r mod S)) [0..<hn]))) [0..<B * S])\<rparr>"
    apply (subst linear_forward_3d[where B = B and S = S and E = "hn * dh"])
      apply (simp_all add: lay d)
    apply (intro arg_cong[where f = concat] map_cong refl)
    apply (simp add: merged)
    done
  have att: "attended m keep msk S x b i = concat (map (\<lambda>h. ho b h i) [0..<hn])" for b i
    by (simp add: attended_def ho_def hs fq_def fk_def fv_def msk4_def d(2))
  show ?thesis
    unfolding MultiHeadAttention_forward_def x d(2) d(1)
    by (simp add: pq sp len un at tr vw[simplified] pr[unfolded d(1)] att)
qed

lemma forward_self_attention_row:
  assumes "valid_mha m" "shape x = [B, S, nat (d_model m)]" "mask_fits msk [B, heads m, S, S]"
    "b < B" "i < S"
  shows "\<exists>y. MultiHeadAttention_forward m keep x [] msk = Inr y \<and> shape y = [B, S, nat (d_model m)]
     \<and> length (data y) = B * S * nat (d_model m)
     \<and> block (nat (d_model m)) (b * S + i) (data y) = affine (c_proj m) (attended m keep msk S x b i)"
proof -
  from assms(1) have out: "out_features (c_proj m) = nat (d_model m)" by (simp add: valid_mha_def)
  have bi: "b * S + i < B * S" using assms(4,5) by (rule idx_less)
  have "block (nat (d_model m)) (b * S + i)
      (concat (map (\<lambda>r. affine (c_proj m) (attended m keep msk S x (r div S) (r mod S))) [0..<B * S]))
     = affine (c_proj m) (attended m keep msk S x ((b * S + i) div S) ((b * S + i) mod S))"
    by (rule block_concat_map_upt) (simp_all add: out bi)
  moreover have "(b * S + i) div S = b" "(b * S + i) mod S = i" using assms(5) by simp_all
  moreover have "length (concat (map (\<lambda>r. affine (c_proj m) (attended m keep msk S x (r div S) (r mod S))) [0..<B * S]))
     = B * S * nat (d_model m)"
    by (rule length_concat_map_upt) (simp add: out)
  ultimately show ?thesis
    using forward_self_attention[OF assms(1-3), of keep] by simp
qed


text \<open>A module that the constructor returns for a positive width and a positive head
  count has sizes that fit together.\<close>

lemma init_valid:
  assumes "MultiHeadAttention_init dm nh p ws = (Inr m, created)" "0 < dm" "0 < nh"
  shows "valid_mha m"
  using assms
  by (auto simp: MultiHeadAttention_init_def nn_Linear_def valid_mha_def nat_mult_distrib
      split: if_splits)

subsection \<open>Masked positions\<close>

lemma permitted_mask4:
  assumes "mask_fits (Some mk) [B, hn, S, S]"
  shows "permitted (mask4 (Some mk)) b h i j = mask_entry mk b i j"
proof -
  from assms obtain Bm Qm Km where sh: "shape mk = [Bm, Qm, Km]"
    by (auto simp: mask_fits_def broadcasts_def length_Suc_conv split: list.splits)
  show ?thesis
    by (simp add: permitted_def mask4_def mask_at_def mask_entry_def sh)
qed

lemma causal_forD:
  "causal_for mk B S \<Longrightarrow> b < B \<Longrightarrow> i < j \<Longrightarrow> j < S \<Longrightarrow> \<not> mask_entry mk b i j"
  by (simp add: causal_for_def list_all_iff)

lemma masked_weight_zero:
  assumes "j < length ss" "ss ! j = None"
  shows "dropout_elem p tr kp (masked_softmax ss ! j) = 0"
  using assms by (simp add: masked_softmax_def dropout_elem_def)

lemma attended_cong:
  assumes fits: "mask_fits (Some mk) [B, heads m, S, S]" and causal: "causal_for mk B S"
    and b: "b < B" and i: "i < S"
    and agree: "\<forall>p\<le>i. block (nat (d_model m)) (b * S + p) (data x) = block (nat (d_model m)) (b * S + p) (data x')"
  shows "attended m keep (Some mk) S x b i = attended m keep (Some mk) S x' b i"
proof -
  define d where "d = nat (d_model m)"
  define dh where "dh = head_dim m"
  define msk where "msk = mask4 (Some mk)"
  let ?fq = "\<lambda>x r. q_row m (block d r (data x))"
  let ?fk = "\<lambda>x r. k_row m (block d r (data x))"
  let ?fv = "\<lambda>x r. v_row m (block d r (data x))"
  have same: "block d (b * S + p) (data x) = block d (b * S + p) (data x')" if "p \<le> i" for p
    using agree that by (simp add: d_def)
  have masked: "\<not> permitted msk b h i j" if "i < j" "j < S" for h j
    using causal_forD[OF causal b that] permitted_mask4[OF fits] by (simp add: msk_def)
  have sc: "head_scores msk S dh (?fq x) (?fk x) b h i = head_scores msk S dh (?fq x') (?fk x') b h i" for h
    unfolding head_scores_def
  proof (rule map_cong[OF refl])
    fix j assume "j \<in> set [0..<S]"
    then have j: "j < S" by simp
    show "(if permitted msk b h i j
          then Some (dot (head_slice dh h (q_row m (block d (b * S + i) (data x))))
                         (head_slice dh h (k_row m (block d (b * S + j) (data x)))) / sqrt (real dh))
          else None)
       = (if permitted msk b h i j
          then Some (dot (head_slice dh h (q_row m (block d (b * S + i) (data x'))))
                         (head_slice dh h (k_row m (block d (b * S + j) (data x')))) / sqrt (real dh))
          else None)"
    proof (cases "j \<le> i")
      case True
      then show ?thesis by (simp add: same)
    next
      case False
      then have "\<not> permitted msk b h i j" using masked j by simp
      then show ?thesis by simp
    qed
  qed
  have w: "head_weights p tr keep msk S hn dh (?fq x) (?fk x) b h i
         = head_weights p tr keep msk S hn dh (?fq x') (?fk x') b h i" for p tr hn h
    by (simp add: head_weights_def sc)
  have wz: "head_weights p tr keep msk S hn dh (?fq x') (?fk x') b h i ! j = 0" if "i < j" "j < S" for p tr hn h j
  proof -
    have "head_scores msk S dh (?fq x') (?fk x') b h i ! j = None"
      using that masked by (simp add: head_scores_def)
    moreover have "j < length (head_scores msk S dh (?fq x') (?fk x') b h i)"
      using that by (simp add: head_scores_def)
    ultimately show ?thesis
      using that by (simp add: head_weights_def masked_weight_zero)
  qed
  have ho: "head_output p tr keep msk S hn dh (?fq x) (?fk x) (?fv x) b h i
          = head_output p tr keep msk S hn dh (?fq x') (?fk x') (?fv x') b h i" for p tr hn h
    unfolding head_output_def w
  proof (intro map_cong refl arg_cong[where f = sum_list])
    fix c j assume "j \<in> set [0..<S]"
    then have j: "j < S" by simp
    show "head_weights p tr keep msk S hn dh (?fq x') (?fk x') b h i ! j
            * head_slice dh h (v_row m (block d (b * S + j) (data x))) ! c
        = head_weights p tr keep msk S hn dh (?fq x') (?fk x') b h i ! j
            * head_slice dh h (v_row m (block d (b * S + j) (data x'))) ! c"
    proof (cases "j \<le> i")
      case True
      then show ?thesis by (simp add: same)
    next
      case False
      then show ?thesis using wz j by simp
    qed
  qed
  show ?thesis
    unfolding attended_def d_def[symmetric] dh_def[symmetric] msk_def[symmetric]
    by (simp add: ho)
qed


lemma sum_list_upt_zero_tail:
  assumes "i < S" "\<And>j. i < j \<Longrightarrow> j < S \<Longrightarrow> f j = (0::real)"
  shows "sum_list (map f [0..<S]) = sum_list (map f [0..<Suc i])"
proof -
  have "[0..<S] = [0..<Suc i] @ [Suc i..<S]"
    using assms(1) by (metis Suc_leI le0 le_add_diff_inverse upt_add_eq_append)
  moreover have "map f [Suc i..<S] = map (\<lambda>j. 0) [Suc i..<S]"
    by (rule map_cong[OF refl]) (simp add: assms(2))
  then have "sum_list (map f [Suc i..<S]) = sum_list (map (\<lambda>j. 0::real) [Suc i..<S])"
    by (rule arg_cong)
  then have "sum_list (map f [Suc i..<S]) = 0" by (simp only: sum_list_0)
  ultimately show ?thesis by simp
qed

lemma masked_softmax_nth:
  "j < length ss \<Longrightarrow> masked_softmax ss ! j = expo (ss ! j) / sum_list (map expo ss)"
  by (simp add: masked_softmax_def)

lemma eval_weights_nth:
  assumes "j < S"
  shows "head_weights p False keep msk S hn dh fq fk b h i ! j
     = expo (head_scores msk S dh fq fk b h i ! j) / sum_list (map expo (head_scores msk S dh fq fk b h i))"
  using assms by (simp add: head_weights_def dropout_elem_def masked_softmax_nth head_scores_def)


lemma head_output_prefix:
  assumes i: "i < S" "i < S'"
    and masked: "\<And>j. i < j \<Longrightarrow> j < S \<Longrightarrow> \<not> permitted msk b h i j"
    and masked': "\<And>j. i < j \<Longrightarrow> j < S' \<Longrightarrow> \<not> permitted msk' b h i j"
    and same_mask: "\<And>j. j \<le> i \<Longrightarrow> permitted msk b h i j = permitted msk' b h i j"
    and q: "fq (b * S + i) = fq' (b * S' + i)"
    and k: "\<And>j. j \<le> i \<Longrightarrow> fk (b * S + j) = fk' (b * S' + j)"
    and v: "\<And>j. j \<le> i \<Longrightarrow> fv (b * S + j) = fv' (b * S' + j)"
  shows "head_output p False keep msk S hn dh fq fk fv b h i
       = head_output p False keep' msk' S' hn dh fq' fk' fv' b h i"
proof -
  define g where "g = (\<lambda>j. if permitted msk b h i j
               then Some (dot (head_slice dh h (fq (b * S + i))) (head_slice dh h (fk (b * S + j)))
                          / sqrt (real dh))
               else None)"
  define g' where "g' = (\<lambda>j. if permitted msk' b h i j
               then Some (dot (head_slice dh h (fq' (b * S' + i))) (head_slice dh h (fk' (b * S' + j)))
                          / sqrt (real dh))
               else None)"
  have sc: "head_scores msk S dh fq fk b h i = map g [0..<S]"
    "head_scores msk' S' dh fq' fk' b h i = map g' [0..<S']"
    by (simp_all add: head_scores_def g_def g'_def)
  have gg: "g j = g' j" if "j \<le> i" for j
    using that by (simp add: g_def g'_def same_mask q k)
  have gz: "expo (g j) = 0" if "i < j" "j < S" for j
    using masked[OF that] by (simp add: g_def)
  have gz': "expo (g' j) = 0" if "i < j" "j < S'" for j
    using masked'[OF that] by (simp add: g'_def)
  define Z where "Z = sum_list (map (\<lambda>j. expo (g j)) [0..<Suc i])"
  have Z: "sum_list (map expo (map g [0..<S])) = Z"
    unfolding Z_def map_map comp_def by (rule sum_list_upt_zero_tail) (use i gz in simp_all)
  have "sum_list (map expo (map g' [0..<S'])) = sum_list (map (\<lambda>j. expo (g' j)) [0..<Suc i])"
    unfolding map_map comp_def by (rule sum_list_upt_zero_tail) (use i gz' in simp_all)
  also have "\<dots> = Z"
    unfolding Z_def
  proof (rule arg_cong[where f = sum_list], rule map_cong[OF refl])
    fix j assume "j \<in> set [0..<Suc i]"
    then have "j \<le> i" by auto
    then show "expo (g' j) = expo (g j)" by (simp add: gg)
  qed
  finally have Z': "sum_list (map expo (map g' [0..<S'])) = Z" .
  have w: "head_weights p False keep msk S hn dh fq fk b h i ! j = expo (g j) / Z" if "j < S" for j
    using that by (simp add: eval_weights_nth sc Z[unfolded map_map])
  have w': "head_weights p False keep' msk' S' hn dh fq' fk' b h i ! j = expo (g' j) / Z" if "j < S'" for j
    using that by (simp add: eval_weights_nth sc Z'[unfolded map_map])
  have row: "sum_list (map (\<lambda>j. head_weights p False keep msk S hn dh fq fk b h i ! j
                                  * head_slice dh h (fv (b * S + j)) ! c) [0..<S])
      = sum_list (map (\<lambda>j. head_weights p False keep' msk' S' hn dh fq' fk' b h i ! j
                                  * head_slice dh h (fv' (b * S' + j)) ! c) [0..<S'])" for c
  proof -
    have "sum_list (map (\<lambda>j. head_weights p False keep msk S hn dh fq fk b h i ! j
                                  * head_slice dh h (fv (b * S + j)) ! c) [0..<S])
        = sum_list (map (\<lambda>j. head_weights p False keep msk S hn dh fq fk b h i ! j
                                  * head_slice dh h (fv (b * S + j)) ! c) [0..<Suc i])"
      by (rule sum_list_upt_zero_tail) (use i w gz in simp_all)
    also have "\<dots> = sum_list (map (\<lambda>j. head_weights p False keep' msk' S' hn dh fq' fk' b h i ! j
                                  * head_slice dh h (fv' (b * S' + j)) ! c) [0..<Suc i])"
    proof (rule arg_cong[where f = sum_list], rule map_cong[OF refl])
      fix j assume "j \<in> set [0..<Suc i]"
      then have j: "j \<le> i" by auto
      with i have "j < S" "j < S'" by simp_all
      with j show "head_weights p False keep msk S hn dh fq fk b h i ! j
                     * head_slice dh h (fv (b * S + j)) ! c
                 = head_weights p False keep' msk' S' hn dh fq' fk' b h i ! j
                     * head_slice dh h (fv' (b * S' + j)) ! c"
        by (simp add: w w' gg v)
    qed
    also have "\<dots> = sum_list (map (\<lambda>j. head_weights p False keep' msk' S' hn dh fq' fk' b h i ! j
                                  * head_slice dh h (fv' (b * S' + j)) ! c) [0..<S'])"
      by (rule sum_list_upt_zero_tail[symmetric]) (use i w' gz' in simp_all)
    finally show ?thesis .
  qed
  show ?thesis
    unfolding head_output_def by (simp add: row)
qed

lemma attended_prefix:
  assumes eval: "\<not> in_training m"
    and fits: "mask_fits (Some mk) [B, heads m, S, S]" "mask_fits (Some mk') [B, heads m, S', S']"
    and causal: "causal_for mk B S" "causal_for mk' B S'"
    and same_mask: "\<forall>j\<le>i. mask_entry mk b i j = mask_entry mk' b i j"
    and b: "b < B" and i: "i < S" "i < S'"
    and ext: "\<forall>p\<le>i. block (nat (d_model m)) (b * S + p) (data x) = block (nat (d_model m)) (b * S' + p) (data x')"
  shows "attended m keep (Some mk) S x b i = attended m keep' (Some mk') S' x' b i"
proof -
  have "head_output (dropout m) False keep (mask4 (Some mk)) S (heads m) (head_dim m)
          (\<lambda>r. q_row m (block (nat (d_model m)) r (data x)))
          (\<lambda>r. k_row m (block (nat (d_model m)) r (data x)))
          (\<lambda>r. v_row m (block (nat (d_model m)) r (data x))) b h i
      = head_output (dropout m) False keep' (mask4 (Some mk')) S' (heads m) (head_dim m)
          (\<lambda>r. q_row m (block (nat (d_model m)) r (data x')))
          (\<lambda>r. k_row m (block (nat (d_model m)) r (data x')))
          (\<lambda>r. v_row m (block (nat (d_model m)) r (data x'))) b h i" for h
  proof (rule head_output_prefix[OF i])
    fix j assume "i < j" "j < S"
    then show "\<not> permitted (mask4 (Some mk)) b h i j"
      using causal_forD[OF causal(1) b] permitted_mask4[OF fits(1)] by simp
  next
    fix j assume "i < j" "j < S'"
    then show "\<not> permitted (mask4 (Some mk')) b h i j"
      using causal_forD[OF causal(2) b] permitted_mask4[OF fits(2)] by simp
  next
    fix j assume "j \<le> i"
    then show "permitted (mask4 (Some mk)) b h i j = permitted (mask4 (Some mk')) b h i j"
      using same_mask permitted_mask4[OF fits(1)] permitted_mask4[OF fits(2)] by simp
  qed (use ext in simp_all)
  with eval show ?thesis
    by (simp add: attended_def)
qed

subsection \<open>Sizes of externally supplied tensors\<close>

lemma view_heads_numel:
  assumes "view t [int B, int S, nh, int E div nh] = Inr t'" "nh \<noteq> 0"
  shows "numel t = B * S * nat nh * nat (int E div nh)"
proof (cases "0 < nh")
  case True
  then have "0 \<le> int E div nh" by (simp add: pos_imp_zdiv_nonneg_iff)
  with True assms(1) show ?thesis
    by (simp add: view_def split: if_splits)
next
  case False
  with assms(2) have neg: "nh < 0" by simp
  then have le: "int E div nh \<le> 0" by (simp add: div_nonneg_neg_le0)
  show ?thesis
  proof (cases "int E div nh < 0")
    case True
    with neg assms(1) show ?thesis by (simp add: view_def split: if_splits)
  next
    case False
    with le have "int E div nh = 0" by simp
    with neg assms(1) show ?thesis by (simp add: view_def Let_def split: if_splits)
  qed
qed

lemma split_heads_numel:
  assumes "split_heads m B S E t = Inr t'"
  shows "numel t = B * S * nat (n_head m) * nat (int E div n_head m)"
  using assms view_heads_numel[of t B S "n_head m" E]
  by (auto simp: split_heads_def split: if_splits sum.splits)

lemma cross_attention_sizes:
  assumes "numel q \<noteq> numel k"
  shows "\<exists>e. MultiHeadAttention_forward m keep x [q, k, v] msk = Inl e"
proof (cases "MultiHeadAttention_forward m keep x [q, k, v] msk")
  case (Inl e)
  then show ?thesis by blast
next
  case (Inr y)
  then obtain B S E q4 k4 where "split_heads m B S E q = Inr q4" "split_heads m B S E k = Inr k4"
    by (auto simp: MultiHeadAttention_forward_def project_qkv_def unpack3_def split: list.splits sum.splits)
  from split_heads_numel[OF this(1)] split_heads_numel[OF this(2)] assms show ?thesis by simp
qed


subsection \<open>Evaluation on the concrete instances\<close>

lemmas eval_defs = MultiHeadAttention_forward_def project_qkv_def linear_forward_def split_dim2_def
  unpack3_def split_heads_def view_def transpose12_def contiguous_def unsqueeze1_def
  ScaledDotProductAttention_forward_def attention_row_def attention_weights_def masked_softmax_def
  permitted_def dropout_elem_def affine_def dot_def rows_def block_def numel_def Let_def

lemma valid_demo_mha: "valid_mha demo_mha"
  by (simp add: valid_mha_def demo_mha_def)


subsection \<open>Causal masking\<close>

text \<open>
  C2. Self-attention under a causal mask: let two inputs of the same shape agree, in
  batch row \<open>b\<close>, on every position up to \<open>i\<close>. Then both calls of the forward pass
  return, and the output rows at position \<open>i\<close> of batch row \<open>b\<close> are equal, whatever
  the inputs hold at later positions (and in other batch rows). This holds in
  evaluation mode and, for the same dropout decisions, in training mode.
\<close>

theorem causal_mask_hides_future:
  assumes "valid_mha m" "shape x = [B, S, nat (d_model m)]" "shape x' = [B, S, nat (d_model m)]"
    and "mask_fits (Some mk) [B, heads m, S, S]" "causal_for mk B S"
    and "b < B" "i < S"
    and "\<forall>p\<le>i. block (nat (d_model m)) (b * S + p) (data x) = block (nat (d_model m)) (b * S + p) (data x')"
  shows "\<exists>y y'. MultiHeadAttention_forward m keep x [] (Some mk) = Inr y
      \<and> MultiHeadAttention_forward m keep x' [] (Some mk) = Inr y'
      \<and> block (nat (d_model m)) (b * S + i) (data y) = block (nat (d_model m)) (b * S + i) (data y')"
proof -
  from forward_self_attention_row[OF assms(1,2,4,6,7), of keep] obtain y where
    y: "MultiHeadAttention_forward m keep x [] (Some mk) = Inr y"
       "block (nat (d_model m)) (b * S + i) (data y) = affine (c_proj m) (attended m keep (Some mk) S x b i)"
    by blast
  from forward_self_attention_row[OF assms(1,3,4,6,7), of keep] obtain y' where
    y': "MultiHeadAttention_forward m keep x' [] (Some mk) = Inr y'"
       "block (nat (d_model m)) (b * S + i) (data y') = affine (c_proj m) (attended m keep (Some mk) S x' b i)"
    by blast
  from attended_cong[OF assms(4,5,6,7,8), of keep]
  have "attended m keep (Some mk) S x b i = attended m keep (Some mk) S x' b i" .
  with y y' show ?thesis by simp
qed

theorem causal_mask_hides_future_witness:
  "\<exists>y y'. MultiHeadAttention_forward demo_mha keep_all x_two [] (Some causal_mask_2) = Inr y
      \<and> MultiHeadAttention_forward demo_mha keep_all x_two_alt [] (Some causal_mask_2) = Inr y'
      \<and> block 2 0 (data y) = block 2 0 (data y')"
proof -
  have 1: "shape x_two = [1, 2, nat (d_model demo_mha)]" "shape x_two_alt = [1, 2, nat (d_model demo_mha)]"
    by (simp_all add: x_two_def x_two_alt_def demo_mha_def)
  have 2: "mask_fits (Some causal_mask_2) [1, heads demo_mha, 2, 2]"
    by (simp add: mask_fits_def causal_mask_2_def broadcasts_def)
  have 3: "causal_for causal_mask_2 1 2"
    by (simp add: causal_for_def mask_entry_def causal_mask_2_def eval_nat_numeral)
  have 4: "\<forall>p\<le>0. block (nat (d_model demo_mha)) (0 * 2 + p) (data x_two)
      = block (nat (d_model demo_mha)) (0 * 2 + p) (data x_two_alt)"
    by (simp add: block_def x_two_def x_two_alt_def demo_mha_def)
  from causal_mask_hides_future[OF valid_demo_mha 1 2 3 _ _ 4, of keep_all]
  show ?thesis by (simp add: demo_mha_def)
qed


subsection \<open>Cross-attention with a memory of another length\<close>

text \<open>
  C4. The claim says that the forward pass accepts a query of one sequence length
  together with key and value of another. The code reshapes all three with the
  sequence length of \<open>x\<close>, so the call raises: here \<open>x\<close> and the query have one
  position, key and value have two, and the view of the key fails. The lemma
  \<open>cross_attention_sizes\<close> shows the same for every call whose query and key differ
  in their number of elements.
\<close>

theorem cross_attention_raises:
  "MultiHeadAttention_forward demo_mha keep_all x_one [x_one, x_two, x_two] None = Inl RuntimeError"
  by (simp add: eval_defs demo_mha_def x_one_def x_two_def upt_2 upt_3 upt_6 keep_all_def)


subsection \<open>Shape preservation\<close>

text \<open>
  C6. Self-attention keeps the shape: for a module whose sizes fit together (positive
  width and head count, the width a multiple of the head count), every batch size
  \<open>B\<close>, every sequence length \<open>S\<close> and every input of shape \<open>(B, S, d_model)\<close>, with
  no mask or with a mask that broadcasts against the scores, the forward pass without
  external query, key and value returns a well-formed tensor of the shape of its input.
\<close>

theorem self_attention_keeps_shape:
  assumes "valid_mha m" "shape x = [B, S, nat (d_model m)]" "mask_fits msk [B, heads m, S, S]"
  shows "\<exists>y. MultiHeadAttention_forward m keep x [] msk = Inr y \<and> shape y = shape x \<and> well_formed y"
proof -
  from assms(1) have out: "out_features (c_proj m) = nat (d_model m)" by (simp add: valid_mha_def)
  have "length (concat (map (\<lambda>r. affine (c_proj m) (attended m keep msk S x (r div S) (r mod S))) [0..<B * S]))
     = B * S * nat (d_model m)"
    by (rule length_concat_map_upt) (simp add: out)
  with forward_self_attention[OF assms, of keep] assms(2) show ?thesis
    by (simp add: well_formed_def)
qed

theorem self_attention_keeps_shape_witness:
  "\<exists>y. MultiHeadAttention_forward demo_mha keep_all x_two [] (Some causal_mask_2) = Inr y
     \<and> shape y = shape x_two \<and> well_formed y"
proof -
  have 1: "shape x_two = [1, 2, nat (d_model demo_mha)]"
    by (simp add: x_two_def demo_mha_def)
  have 2: "mask_fits (Some causal_mask_2) [1, heads demo_mha, 2, 2]"
    by (simp add: mask_fits_def causal_mask_2_def broadcasts_def)
  from self_attention_keeps_shape[OF valid_demo_mha 1 2] show ?thesis .
qed


subsection \<open>What the forward pass returns\<close>

text \<open>
  The forward pass of \<open>transformer/attention.py\<close> is the final projection applied to
  the concatenated heads; nothing follows the projection.
\<close>

lemma forward_projects_concatenated_heads:
  "MultiHeadAttention_forward self keep x qkv msk =
     (case concatenated_heads self keep x qkv msk of
        Inl e \<Rightarrow> Inl e
      | Inr y \<Rightarrow> linear_forward (c_proj self) y)"
  unfolding MultiHeadAttention_forward_def concatenated_heads_def
  by (simp split: list.splits sum.splits prod.splits option.splits)

lemma valid_demo_mha_training: "valid_mha demo_mha_training"
  by (simp add: valid_mha_def demo_mha_training_def)

text \<open>
  The forward pass of \<open>transformer/common/attention.py\<close> raises on every call:
  \<open>dropout\<close> is not a parameter of \<open>F.scaled_dot_product_attention\<close>, so the
  residual dropout that follows the projection in that file is never reached.
\<close>

lemma common_forward_raises:
  "\<exists>e. Common_MultiHeadAttention_forward sdpa self keep x msk = Inl e"
  by (auto simp: Common_MultiHeadAttention_forward_def F_scaled_dot_product_attention_def
      sdpa_parameters_def split: list.splits sum.splits prod.splits)

text \<open>
  C5 (amended). The forward pass of \<open>MultiHeadAttention\<close> in
  \<open>transformer/attention.py\<close> returns the final linear projection of the concatenated
  head outputs itself, in training as in evaluation mode: no residual dropout is
  applied to it, and the dropout rate reaches the attention primitive only. The call
  returns \<open>c_proj\<close> of the concatenated heads (or the exception raised on the way), and
  for self-attention on an input of shape \<open>(B, S, d_model)\<close> the returned row at
  position \<open>i\<close> of batch row \<open>b\<close> is the projection, weights times row plus bias, of the
  attended row of that position.
\<close>

theorem forward_returns_projection:
  "MultiHeadAttention_forward self keep x qkv msk =
     (case concatenated_heads self keep x qkv msk of
        Inl e \<Rightarrow> Inl e
      | Inr y \<Rightarrow> linear_forward (c_proj self) y)
   \<and> (valid_mha self \<and> shape x = [B, S, nat (d_model self)] \<and> mask_fits msk [B, heads self, S, S]
        \<and> b < B \<and> i < S \<longrightarrow>
      (\<exists>y. MultiHeadAttention_forward self keep x [] msk = Inr y
         \<and> block (nat (d_model self)) (b * S + i) (data y)
            = affine (c_proj self) (attended self keep msk S x b i)))"
proof -
  have "\<exists>y. MultiHeadAttention_forward self keep x [] msk = Inr y
         \<and> block (nat (d_model self)) (b * S + i) (data y)
            = affine (c_proj self) (attended self keep msk S x b i)"
    if "valid_mha self" "shape x = [B, S, nat (d_model self)]" "mask_fits msk [B, heads self, S, S]"
      "b < B" "i < S"
    using forward_self_attention_row[OF that, of keep] by blast
  then show ?thesis
    using forward_projects_concatenated_heads[of self keep x qkv msk] by blast
qed

theorem forward_returns_projection_witness:
  "MultiHeadAttention_forward demo_mha_training keep_none x_one [] None =
     (case concatenated_heads demo_mha_training keep_none x_one [] None of
        Inl e \<Rightarrow> Inl e
      | Inr y \<Rightarrow> linear_forward (c_proj demo_mha_training) y)
   \<and> (\<exists>y. MultiHeadAttention_forward demo_mha_training keep_none x_one [] None = Inr y
         \<and> block 2 0 (data y)
            = affine (c_proj demo_mha_training) (attended demo_mha_training keep_none None 1 x_one 0 0))"
proof -
  have 1: "shape x_one = [1, 1, nat (d_model demo_mha_training)]"
    by (simp add: x_one_def demo_mha_training_def)
  have 2: "mask_fits None [1, heads demo_mha_training, 1, 1]"
    by (simp add: mask_fits_def)
  have 3: "nat (d_model demo_mha_training) = 2" by (simp add: demo_mha_training_def)
  note t = forward_returns_projection[where self = demo_mha_training and keep = keep_none and x = x_one
      and qkv = "[]" and msk = None and B = 1 and S = 1 and b = 0 and i = 0]
  from t have a: "MultiHeadAttention_forward demo_mha_training keep_none x_one [] None =
     (case concatenated_heads demo_mha_training keep_none x_one [] None of
        Inl e \<Rightarrow> Inl e
      | Inr y \<Rightarrow> linear_forward (c_proj demo_mha_training) y)"
    by (rule conjunct1)
  from t valid_demo_mha_training 1 2
  have "\<exists>y. MultiHeadAttention_forward demo_mha_training keep_none x_one [] None = Inr y
         \<and> block (nat (d_model demo_mha_training)) (0 * 1 + 0) (data y)
            = affine (c_proj demo_mha_training) (attended demo_mha_training keep_none None 1 x_one 0 0)"
    by blast
  then have b: "\<exists>y. MultiHeadAttention_forward demo_mha_training keep_none x_one [] None = Inr y
         \<and> block 2 0 (data y)
            = affine (c_proj demo_mha_training) (attended demo_mha_training keep_none None 1 x_one 0 0)"
    by (simp add: 3)
  from a b show ?thesis by (rule conjI)
qed

text \<open>
  The claim as stated fails for the class in \<open>transformer/attention.py\<close>. In training
  mode with rate 1/2 and every dropout decision "drop", the attention weights are all
  zero and the projection is its bias \<open>[5, 7]\<close>. Residual dropout would turn that into
  zeros; the forward pass returns \<open>[5, 7]\<close>.
\<close>

theorem forward_returns_projection_counterexample:
  "MultiHeadAttention_forward demo_mha_training keep_none x_one [] None
      = Inr \<lparr>shape = [1, 1, 2], data = [5, 7]\<rparr>
   \<and> nn_Dropout (dropout demo_mha_training) (in_training demo_mha_training) keep_none
        \<lparr>shape = [1, 1, 2], data = [5, 7]\<rparr>
      = \<lparr>shape = [1, 1, 2], data = [0, 0]\<rparr>"
  by (simp add: eval_defs nn_Dropout_def demo_mha_training_def x_one_def upt_2 upt_3 upt_6 keep_none_def)


section \<open>Properties of the constructors\<close>

text \<open>A sequence of constructors raises when one of them does.\<close>

lemma then_init_raises:
  "isl (fst r) \<Longrightarrow> isl (fst (then_init r f))"
  by (cases r) (auto simp: then_init_def split: sum.splits)

lemma then_init_raises_second:
  assumes "\<And>a. isl (fst (f a))"
  shows "isl (fst (then_init r f))"
proof (cases r)
  case (Pair s created)
  show ?thesis
  proof (cases s)
    case (Inl e)
    with Pair show ?thesis by (simp add: then_init_def)
  next
    case (Inr a)
    with Pair assms[of a] show ?thesis
      by (cases "f a") (simp add: then_init_def)
  qed
qed

lemma then_init_returned:
  "then_init (Inr a, created) f = (fst (f a), created @ snd (f a))"
  by (simp add: then_init_def split: prod.splits)

lemma init_violation:
  assumes "nh = 0 \<or> dm mod nh \<noteq> 0"
  shows "isl (fst (MultiHeadAttention_init dm nh p ws))"
  using assms by (auto simp: MultiHeadAttention_init_def)

text \<open>With at least one block, the first thing the encoder constructs is the attention
  sublayer of its first block.\<close>

lemma encoder_violation:
  assumes "nh = 0 \<or> dm mod nh \<noteq> 0" "0 < stack"
  shows "isl (fst (Encoder_init dm stack nh hidden p wss))"
proof -
  from assms(2) obtain n where n: "nat stack = Suc n" by (cases "nat stack") simp_all
  have "isl (fst (EncoderBlock_init dm nh hidden p (wss 0)))"
    unfolding EncoderBlock_init_def by (rule then_init_raises) (rule init_violation[OF assms(1)])
  then show ?thesis
    unfolding Encoder_init_def n by (simp add: then_init_raises)
qed

lemma transformer_violation:
  assumes "n_head_cfg c = 0 \<or> d_model_cfg c mod n_head_cfg c \<noteq> 0" "0 < n_stack c"
  shows "isl (fst (Transformer_init P c wss))"
  unfolding Transformer_init_def
  by (intro then_init_raises_second then_init_raises encoder_violation assms)

text \<open>The source embedding is constructed first: when the encoder raises, the embedding
  table already exists.\<close>

lemma transformer_tensors_before_violation:
  assumes "n_head_cfg c = 0 \<or> d_model_cfg c mod n_head_cfg c \<noteq> 0" "0 < n_stack c"
    and "0 \<le> src_vocab_size c" "0 \<le> d_model_cfg c"
  shows "\<exists>e rest. Transformer_init P c wss = (Inl e, [nat (src_vocab_size c), nat (d_model_cfg c)] # rest)"
proof -
  define f where "f = (\<lambda>e1 :: Embedding.
     then_init (P (d_model_cfg c) (dropout_cfg c) (src_max_len c)) (\<lambda>p1.
     then_init (Encoder_init (d_model_cfg c) (n_stack c) (n_head_cfg c) (d_ffn_hidden c) (dropout_cfg c)
                  (\<lambda>k. wss (2 * k + 3))) (\<lambda>enc.
     then_init (Embedding_init (tgt_vocab_size c) (d_model_cfg c) (pad_idx c) (wss 1)) (\<lambda>e2.
     then_init (P (d_model_cfg c) (dropout_cfg c) (tgt_max_len c)) (\<lambda>p2.
     then_init (Decoder_init (d_model_cfg c) (n_stack c) (n_head_cfg c) (d_ffn_hidden c) (dropout_cfg c)
                  (\<lambda>k. wss (2 * k + 4))) (\<lambda>dec.
     then_init (Generator_init (d_model_cfg c) (tgt_vocab_size c) (wss 2)) (\<lambda>g.
       (Inr \<lparr>config = c, enc_embedding = e1, enc_position = p1, enc_stack = enc,
              dec_embedding = e2, dec_position = p2, dec_stack = dec, generator = g\<rparr>, []))))))))"
  have raises: "isl (fst (f e1))" for e1
    unfolding f_def
    by (intro then_init_raises_second then_init_raises encoder_violation assms(1,2))
  obtain e1 where e1: "Embedding_init (src_vocab_size c) (d_model_cfg c) (pad_idx c) (wss 0)
      = (Inr e1, [[nat (src_vocab_size c), nat (d_model_cfg c)]])"
    using assms(3,4) by (simp add: Embedding_init_def)
  have "Transformer_init P c wss
      = (fst (f e1), [[nat (src_vocab_size c), nat (d_model_cfg c)]] @ snd (f e1))"
    unfolding Transformer_init_def e1 then_init_returned f_def ..
  moreover from raises[of e1] obtain e where "fst (f e1) = Inl e" by (cases "fst (f e1)") simp_all
  ultimately show ?thesis by simp
qed

lemma good_config_constructed:
  "\<exists>t created. Transformer_init no_tensors_init good_config zero_inits = (Inr t, created)"
  by (simp add: Transformer_init_def then_init_def Embedding_init_def good_config_def no_tensors_init_def
      Encoder_init_def EncoderBlock_init_def Decoder_init_def DecoderBlock_init_def Generator_init_def
      FeedForward_init_def MultiHeadAttention_init_def nn_Linear_def eval_nat_numeral)

text \<open>
  C7 (amended). Constructing \<open>MultiHeadAttention\<close> (either class) with a head count
  that is zero or does not divide the model width raises at construction time, before
  the module has created any tensor, and a constructor that returns has stored a width
  that its head count divides. Constructing the model with such a configuration and at
  least one block raises at construction time too, but not before any tensor
  operation: the source embedding is constructed before the encoder, so its table has
  been created when the exception is raised. A model with at least one block that has
  been constructed has a width that its head count divides.
\<close>

theorem init_checks_divisibility:
  "((nh = 0 \<or> dm mod nh \<noteq> 0) \<longrightarrow>
      (\<exists>e. MultiHeadAttention_init dm nh p ws = (Inl e, []))
    \<and> (\<exists>e. Common_MultiHeadAttention_init dm nh p ws = (Inl e, [])))
   \<and> (\<forall>m created. MultiHeadAttention_init dm nh p ws = (Inr m, created)
         \<or> Common_MultiHeadAttention_init dm nh p ws = (Inr m, created)
       \<longrightarrow> nh \<noteq> 0 \<and> d_model m = dm \<and> n_head m = nh \<and> d_model m mod n_head m = 0)
   \<and> ((n_head_cfg c = 0 \<or> d_model_cfg c mod n_head_cfg c \<noteq> 0) \<and> 0 < n_stack c \<longrightarrow>
       (\<exists>e created. Transformer_init P c wss = (Inl e, created)))
   \<and> ((n_head_cfg c = 0 \<or> d_model_cfg c mod n_head_cfg c \<noteq> 0) \<and> 0 < n_stack c
        \<and> 0 \<le> src_vocab_size c \<and> 0 \<le> d_model_cfg c \<longrightarrow>
       (\<exists>e rest. Transformer_init P c wss
          = (Inl e, [nat (src_vocab_size c), nat (d_model_cfg c)] # rest)))
   \<and> (\<forall>t created. Transformer_init P c wss = (Inr t, created) \<and> 0 < n_stack c
       \<longrightarrow> n_head_cfg c \<noteq> 0 \<and> d_model_cfg c mod n_head_cfg c = 0)"
proof -
  have 1: "(nh = 0 \<or> dm mod nh \<noteq> 0) \<longrightarrow>
      (\<exists>e. MultiHeadAttention_init dm nh p ws = (Inl e, []))
    \<and> (\<exists>e. Common_MultiHeadAttention_init dm nh p ws = (Inl e, []))"
    by (auto simp: MultiHeadAttention_init_def Common_MultiHeadAttention_init_def)
  have 2: "\<forall>m created. MultiHeadAttention_init dm nh p ws = (Inr m, created)
         \<or> Common_MultiHeadAttention_init dm nh p ws = (Inr m, created)
       \<longrightarrow> nh \<noteq> 0 \<and> d_model m = dm \<and> n_head m = nh \<and> d_model m mod n_head m = 0"
    by (auto simp: MultiHeadAttention_init_def Common_MultiHeadAttention_init_def nn_Linear_def
        split: if_splits)
  have 3: "\<exists>e created. Transformer_init P c wss = (Inl e, created)"
    if "n_head_cfg c = 0 \<or> d_model_cfg c mod n_head_cfg c \<noteq> 0" "0 < n_stack c"
  proof -
    from transformer_violation[OF that, of P wss] show ?thesis
      by (cases "Transformer_init P c wss"; cases "fst (Transformer_init P c wss)") simp_all
  qed
  have 4: "\<exists>e rest. Transformer_init P c wss
          = (Inl e, [nat (src_vocab_size c), nat (d_model_cfg c)] # rest)"
    if "n_head_cfg c = 0 \<or> d_model_cfg c mod n_head_cfg c \<noteq> 0" "0 < n_stack c"
       "0 \<le> src_vocab_size c" "0 \<le> d_model_cfg c"
    using that by (rule transformer_tensors_before_violation)
  have 5: "n_head_cfg c \<noteq> 0 \<and> d_model_cfg c mod n_head_cfg c = 0"
    if "Transformer_init P c wss = (Inr t, created)" "0 < n_stack c" for t created
    using 3 that by auto
  from 1 2 3 4 5 show ?thesis by blast
qed

theorem init_checks_divisibility_witness:
  "(\<exists>e. MultiHeadAttention_init 30 4 (1 / 10) zero_init = (Inl e, []))
   \<and> (\<exists>e. Common_MultiHeadAttention_init 30 4 (1 / 10) zero_init = (Inl e, []))
   \<and> (\<exists>m created. MultiHeadAttention_init 4 2 (1 / 10) zero_init = (Inr m, created)
         \<and> d_model m mod n_head m = 0)
   \<and> (\<exists>e rest. Transformer_init no_tensors_init bad_config zero_inits = (Inl e, [5, 3] # rest))
   \<and> (\<exists>t created. Transformer_init no_tensors_init good_config zero_inits = (Inr t, created)
         \<and> d_model_cfg good_config mod n_head_cfg good_config = 0)"
proof -
  have a: "(4::int) = 0 \<or> (30::int) mod 4 \<noteq> 0" by simp
  obtain m created where b: "MultiHeadAttention_init 4 2 (1 / 10) zero_init = (Inr m, created)"
    by (simp add: MultiHeadAttention_init_def nn_Linear_def)
  have c: "(n_head_cfg bad_config = 0 \<or> d_model_cfg bad_config mod n_head_cfg bad_config \<noteq> 0)
      \<and> 0 < n_stack bad_config \<and> 0 \<le> src_vocab_size bad_config \<and> 0 \<le> d_model_cfg bad_config"
    by (simp add: bad_config_def)
  have d: "nat (src_vocab_size bad_config) = 5" "nat (d_model_cfg bad_config) = 3"
    by (simp_all add: bad_config_def)
  obtain t created' where e: "Transformer_init no_tensors_init good_config zero_inits = (Inr t, created')"
    using good_config_constructed by blast
  have f: "0 < n_stack good_config" by (simp add: good_config_def)
  from init_checks_divisibility[of 4 30 "1 / 10" zero_init bad_config no_tensors_init zero_inits] a c
  have "(\<exists>e. MultiHeadAttention_init 30 4 (1 / 10) zero_init = (Inl e, []))
   \<and> (\<exists>e. Common_MultiHeadAttention_init 30 4 (1 / 10) zero_init = (Inl e, []))
   \<and> (\<exists>e rest. Transformer_init no_tensors_init bad_config zero_inits = (Inl e, [5, 3] # rest))"
    unfolding d by blast
  moreover from init_checks_divisibility[of 2 4 "1 / 10" zero_init good_config no_tensors_init zero_inits] b e f
  have "d_model m mod n_head m = 0 \<and> d_model_cfg good_config mod n_head_cfg good_config = 0"
    by blast
  ultimately show ?thesis using b e by auto
qed

text \<open>
  The claim as stated fails for the model. With width 3, two heads and two blocks the
  constructor raises the assertion of the first encoder block, and the source embedding
  table of shape \<open>(5, 3)\<close> has been created by then (the positional encoding is taken
  to create no tensor at all here).
\<close>

theorem init_checks_divisibility_counterexample:
  "Transformer_init no_tensors_init bad_config zero_inits = (Inl AssertionError, [[5, 3]])"
  by (simp add: Transformer_init_def then_init_def Embedding_init_def bad_config_def no_tensors_init_def
      Encoder_init_def EncoderBlock_init_def MultiHeadAttention_init_def eval_nat_numeral)


section \<open>Reuse of the encoder memory\<close>



text \<open>
  A decoder of at least one block raises when the memory has another number of elements
  than the target-side hidden state: the cross-attention of its first block reshapes
  the memory with the sequence length of the hidden state.
\<close>

lemma residual_normalize_shape:
  "residual_normalize nrm x sub = Inr y \<Longrightarrow> shape y = shape x"
  by (auto simp: residual_normalize_def add_tensors_def map_rows_def split: if_splits sum.splits)

lemma self_attention_sublayer_shape:
  "self_attention_sublayer nrm keep blk x msk = Inr y \<Longrightarrow> shape y = shape x"
  by (auto simp: self_attention_sublayer_def dest: residual_normalize_shape split: sum.splits)

lemma cross_attention_sublayer_raises:
  assumes "numel x \<noteq> numel memory"
  shows "\<exists>e. cross_attention_sublayer nrm keep blk x memory memory_mask = Inl e"
proof -
  from cross_attention_sizes[OF assms] obtain e where
    "MultiHeadAttention_forward (cross_attention blk) keep x [x, memory, memory] memory_mask = Inl e"
    by blast
  then show ?thesis by (simp add: cross_attention_sublayer_def)
qed

lemma decoder_block_raises:
  assumes "numel x \<noteq> numel memory"
  shows "\<exists>e. DecoderBlock_forward nrm act keep blk x memory msk memory_mask = Inl e"
proof (cases "self_attention_sublayer nrm keep blk x msk")
  case (Inl e)
  then show ?thesis by (simp add: DecoderBlock_forward_def)
next
  case (Inr x1)
  from self_attention_sublayer_shape[OF Inr] assms have "numel x1 \<noteq> numel memory"
    by (simp add: numel_def)
  from cross_attention_sublayer_raises[OF this] obtain e where
    "cross_attention_sublayer nrm keep blk x1 memory memory_mask = Inl e" by blast
  with Inr show ?thesis by (simp add: DecoderBlock_forward_def)
qed

lemma decoder_raises:
  assumes "blks \<noteq> []" "numel x \<noteq> numel memory"
  shows "\<exists>e. Decoder_forward nrm act keep blks x memory msk memory_mask = Inl e"
proof -
  from assms(1) obtain blk rest where b: "blks = blk # rest" by (cases blks) auto
  from decoder_block_raises[OF assms(2)] obtain e where
    "DecoderBlock_forward nrm act keep blk x memory msk memory_mask = Inl e" by blast
  then show ?thesis by (simp add: b)
qed

lemma decode_raises:
  assumes "blks \<noteq> []" "dec_p_emb F self tgt = Inr we" "numel we \<noteq> numel memory"
  shows "\<exists>e. decode (with_decoder F nrm act keep blks) self memory memory_mask tgt msk = Inl e"
  using decoder_raises[OF assms(1,3)] assms(2) by (simp add: decode_def with_decoder_def)



text \<open>
  With a causal mask the self-attention sublayer would keep the rows of a prefix: in
  evaluation mode, when the longer input agrees with the shorter one on the positions
  up to \<open>i\<close> and the two causal masks agree on what position \<open>i\<close> may see, the
  output rows at position \<open>i\<close> are equal.
\<close>

lemma causal_self_attention_prefix_stable:
  assumes "valid_mha m" "\<not> in_training m"
    and "shape x = [B, S, nat (d_model m)]" "shape x' = [B, S', nat (d_model m)]"
    and "mask_fits (Some mk) [B, heads m, S, S]" "mask_fits (Some mk') [B, heads m, S', S']"
    and "causal_for mk B S" "causal_for mk' B S'"
    and "\<forall>j\<le>i. mask_entry mk b i j = mask_entry mk' b i j"
    and "b < B" "i < S" "S \<le> S'"
    and "\<forall>p\<le>i. block (nat (d_model m)) (b * S + p) (data x) = block (nat (d_model m)) (b * S' + p) (data x')"
  shows "\<exists>y y'. MultiHeadAttention_forward m keep x [] (Some mk) = Inr y
      \<and> MultiHeadAttention_forward m keep' x' [] (Some mk') = Inr y'
      \<and> block (nat (d_model m)) (b * S + i) (data y) = block (nat (d_model m)) (b * S' + i) (data y')"
proof -
  from assms(11,12) have i': "i < S'" by simp
  from forward_self_attention_row[OF assms(1,3,5,10,11), of keep] obtain y where
    y: "MultiHeadAttention_forward m keep x [] (Some mk) = Inr y"
       "block (nat (d_model m)) (b * S + i) (data y) = affine (c_proj m) (attended m keep (Some mk) S x b i)"
    by blast
  from forward_self_attention_row[OF assms(1,4,6,10) i', of keep'] obtain y' where
    y': "MultiHeadAttention_forward m keep' x' [] (Some mk') = Inr y'"
       "block (nat (d_model m)) (b * S' + i) (data y') = affine (c_proj m) (attended m keep' (Some mk') S' x' b i)"
    by blast
  have "attended m keep (Some mk) S x b i = attended m keep' (Some mk') S' x' b i"
    by (rule attended_prefix[OF assms(2,5,6,7,8,9,10,11) i' assms(13)])
  with y y' show ?thesis by simp
qed





end
